theory Spec2Isabelle
  imports Main "HOL-Library.Log_Nat" "HOL-Library.Sublist"
begin

section \<open>Go values used by package connection\<close>

subsection \<open>float64\<close>

text \<open>
  A float64 is either a finite value \<open>m * 2 ^ e\<close> (mantissa and exponent are integers;
  the representation need not be normalised), an infinity or a NaN. The sign of zero is
  not represented: no operation below observes it.
\<close>

datatype float64 = Finite int int | PosInf | NegInf | NaN

text \<open>
  \<open>rne m k\<close> is \<open>m / 2 ^ k\<close> rounded to the nearest integer, ties to the even one:
  the rounding mode of every float64 operation of Go.
\<close>

definition rne :: "int \<Rightarrow> nat \<Rightarrow> int" where
  "rne m k =
     (let q = m div 2 ^ k; r = m mod 2 ^ k
      in if 2 * r < 2 ^ k then q
         else if 2 ^ k < 2 * r then q + 1
         else if even q then q else q + 1)"

text \<open>
  \<open>f64_round m e\<close> is the float64 nearest to the exact value \<open>m * 2 ^ e\<close>: 53 bits of
  mantissa, fewer below \<open>2 ^ -1022\<close> where the spacing stays \<open>2 ^ -1074\<close>, and an
  infinity from \<open>2 ^ 1024\<close> on.
\<close>

definition f64_round :: "int \<Rightarrow> int \<Rightarrow> float64" where
  "f64_round m e =
     (let k = max (bitlen \<bar>m\<bar> - 53) (- 1074 - e);
          m' = (if k \<le> 0 then m else rne m (nat k));
          e' = (if k \<le> 0 then e else e + k)
      in if m' \<noteq> 0 \<and> 1024 < bitlen \<bar>m'\<bar> + e' then (if 0 < m' then PosInf else NegInf)
         else Finite m' e')"

text \<open>\<open>float64(x)\<close> for an int64 \<open>x\<close>.\<close>

definition f64_of_int :: "int \<Rightarrow> float64" where
  "f64_of_int x = f64_round x 0"

text \<open>The product \<open>x * y\<close> of two float64 values.\<close>

fun f64_mul :: "float64 \<Rightarrow> float64 \<Rightarrow> float64" where
  "f64_mul NaN _ = NaN"
| "f64_mul _ NaN = NaN"
| "f64_mul (Finite m1 e1) (Finite m2 e2) = f64_round (m1 * m2) (e1 + e2)"
| "f64_mul (Finite m e) PosInf = (if m = 0 then NaN else if 0 < m then PosInf else NegInf)"
| "f64_mul (Finite m e) NegInf = (if m = 0 then NaN else if 0 < m then NegInf else PosInf)"
| "f64_mul PosInf (Finite m e) = (if m = 0 then NaN else if 0 < m then PosInf else NegInf)"
| "f64_mul NegInf (Finite m e) = (if m = 0 then NaN else if 0 < m then NegInf else PosInf)"
| "f64_mul PosInf PosInf = PosInf"
| "f64_mul PosInf NegInf = NegInf"
| "f64_mul NegInf PosInf = NegInf"
| "f64_mul NegInf NegInf = PosInf"

text \<open>
  \<open>int64(x)\<close> for a float64 \<open>x\<close>: the fraction is discarded (truncation towards zero).
  When the result does not fit an int64 the conversion still succeeds, with a value that
  the Go specification leaves to the implementation: the parameter \<open>impl\<close> stands for
  that choice.
\<close>

definition trunc_pow2 :: "int \<Rightarrow> int \<Rightarrow> int" where
  "trunc_pow2 m e =
     (if 0 \<le> e then m * 2 ^ nat e
      else if 0 \<le> m then m div 2 ^ nat (- e)
      else - ((- m) div 2 ^ nat (- e)))"

definition int64_range :: "int \<Rightarrow> bool" where
  "int64_range x \<longleftrightarrow> - (2 ^ 63) \<le> x \<and> x < 2 ^ 63"

fun int64_of_f64 :: "(float64 \<Rightarrow> int) \<Rightarrow> float64 \<Rightarrow> int" where
  "int64_of_f64 impl (Finite m e) =
     (if int64_range (trunc_pow2 m e) then trunc_pow2 m e else impl (Finite m e))"
| "int64_of_f64 impl x = impl x"

text \<open>The value of a finite float64 as a rational number.\<close>

fun f64_val :: "float64 \<Rightarrow> rat" where
  "f64_val (Finite m e) = of_int m * (if 0 \<le> e then 2 ^ nat e else 1 / 2 ^ nat (- e))"
| "f64_val _ = 0"

section \<open>Backoff calculator\<close>

text \<open>
  \<open>time.Duration\<close> is an int64 count of nanoseconds. The mutex of the Go struct only
  serialises callers and is not part of the state.
\<close>

type_synonym Duration = int

definition Millisecond :: Duration where
  "Millisecond = 1000000"

record backoff =
  initial :: Duration
  max_delay :: Duration
  multiplier :: float64
  current :: Duration

definition newBackoff :: "Duration \<Rightarrow> Duration \<Rightarrow> float64 \<Rightarrow> backoff" where
  "newBackoff i mx mult =
     \<lparr>initial = i, max_delay = mx, multiplier = mult, current = i\<rparr>"

text \<open>\<open>time.Duration(float64(d) * mult)\<close>.\<close>

definition scale :: "(float64 \<Rightarrow> int) \<Rightarrow> Duration \<Rightarrow> float64 \<Rightarrow> Duration" where
  "scale impl d mult = int64_of_f64 impl (f64_mul (f64_of_int d) mult)"

text \<open>\<open>Next\<close> returns the delay and the updated calculator.\<close>

definition Next :: "(float64 \<Rightarrow> int) \<Rightarrow> backoff \<Rightarrow> Duration \<times> backoff" where
  "Next impl b =
     (let d = current b;
          b1 = b\<lparr>current := scale impl (current b) (multiplier b)\<rparr>;
          b2 = (if current b1 > max_delay b1 then b1\<lparr>current := max_delay b1\<rparr> else b1)
      in (d, b2))"

definition Reset :: "backoff \<Rightarrow> backoff" where
  "Reset b = b\<lparr>current := initial b\<rparr>"

text \<open>The delays returned by \<open>n\<close> successive calls of \<open>Next\<close>.\<close>

fun Next_seq :: "(float64 \<Rightarrow> int) \<Rightarrow> backoff \<Rightarrow> nat \<Rightarrow> Duration list" where
  "Next_seq impl b 0 = []"
| "Next_seq impl b (Suc n) = (case Next impl b of (d, b') \<Rightarrow> d # Next_seq impl b' n)"

text \<open>The state after \<open>n\<close> calls of \<open>Next\<close>.\<close>

fun Next_iter :: "(float64 \<Rightarrow> int) \<Rightarrow> backoff \<Rightarrow> nat \<Rightarrow> backoff" where
  "Next_iter impl b 0 = b"
| "Next_iter impl b (Suc n) = Next_iter impl (snd (Next impl b)) n"

text \<open>
  The calculator as the specification words it: \<open>Next\<close> returns \<open>current\<close>, then sets
  \<open>current = min(current * multiplier, max)\<close>. The product is the product of the two
  numbers, so the value returned and the new \<open>current\<close> are given as rationals.
\<close>

definition Next_spec :: "backoff \<Rightarrow> rat \<times> rat" where
  "Next_spec b =
     (of_int (current b),
      min (of_int (current b) * f64_val (multiplier b)) (of_int (max_delay b)))"

text \<open>
  One implementation's choice for conversions that do not fit: amd64 yields the smallest
  int64.
\<close>

definition amd64_conv :: "float64 \<Rightarrow> int" where
  "amd64_conv x = - (2 ^ 63)"

section \<open>Messages\<close>

subsection \<open>Errors, panics, log records\<close>

text \<open>
  A Go \<open>error\<close>: the two sentinels of the package, a message built by \<open>fmt.Errorf\<close>,
  an error wrapped with \<open>%w\<close> behind a prefix, or an error of a library (transport,
  JSON). A function returning \<open>error\<close> returns an \<open>error option\<close>, \<open>None\<close> for nil.
\<close>

datatype error = ErrNotConnected | ErrClosed | Errorf string | Wrapf string error | External string

fun Error_msg :: "error \<Rightarrow> string" where
  "Error_msg ErrNotConnected = ''not connected''"
| "Error_msg ErrClosed = ''client is closed''"
| "Error_msg (Errorf s) = s"
| "Error_msg (Wrapf p e) = p @ Error_msg e"
| "Error_msg (External s) = s"

text \<open>
  A call returns, panics, or blocks for ever (a receive on a channel that nobody
  closes).
\<close>

datatype 'a ret = Return 'a | Panic string | Blocked

datatype level = LevelDebug | LevelInfo | LevelWarn | LevelError

text \<open>A log record: level and message (the attributes are left out).\<close>

type_synonym log_record = "level \<times> string"

subsection \<open>Payloads\<close>

text \<open>
  A value decoded by \<open>encoding/json\<close> into an \<open>interface{}\<close>: numbers are float64,
  objects are \<open>map[string]interface{}\<close>, here association lists read with \<open>map_of\<close>
  (a nil map is the empty list).
\<close>

datatype jvalue =
    JNull | JBool bool | JNumber float64 | JString string
  | JArray "jvalue list" | JObject "(string \<times> jvalue) list"

type_synonym jmap = "(string \<times> jvalue) list"

record AgentHelloPayload =
  hello_Token :: string
  hello_AgentVersion :: string
  hello_Hostname :: string
  hello_OS :: string
  hello_Arch :: string
  hello_PostgresVersion :: string

record WelcomePayload =
  welcome_ServerID :: string
  welcome_MetricsIntervalSeconds :: int
  welcome_SigningPublicKey :: string
  welcome_CommandsEnabled :: bool

record ErrorPayload =
  err_Code :: string
  err_Message :: string
  err_RetryAfterSeconds :: int

record MetricsPayload =
  metrics_Timestamp :: int
  metrics_Metrics :: "(string \<times> float64) list option"

record PingPayload =
  ping_Timestamp :: int

record CommandPayload =
  cp_ID :: string
  cp_SignedPayload :: jmap
  cp_Signature :: string

text \<open>A \<open>time.Time\<close>: the zero value, or the instant \<open>time.UnixMilli\<close> builds.\<close>

datatype Time = ZeroTime | UnixMilli int

record Command =
  ID :: string
  ServerID :: string
  CommandName :: string
  Params :: jmap
  Nonce :: string
  Timestamp :: Time
  Signature :: string
  RawPayload :: jmap

record CommandResultPayload =
  result_CommandID :: string
  result_Status :: string
  result_Result :: jmap
  result_Error :: string
  result_DurationMs :: int

text \<open>
  The \<open>interface{}\<close> in the payload field of a \<open>Message\<close>: one of the payload structs
  when the agent builds the message, a decoded JSON value when it was received.
\<close>

datatype any =
    AnyHello AgentHelloPayload | AnyWelcome WelcomePayload | AnyError ErrorPayload
  | AnyMetrics MetricsPayload | AnyPing PingPayload | AnyResult CommandResultPayload
  | AnyJSON jvalue

record Message =
  Type :: string
  Payload :: any

subsection \<open>Configuration\<close>

definition Second :: Duration where
  "Second = 1000000000"

definition Minute :: Duration where
  "Minute = 60 * Second"

record Config =
  URL :: string
  Token :: string
  AgentVersion :: string
  Hostname :: string
  OS :: string
  Arch :: string
  PostgresVersion :: string
  InitialBackoff :: Duration
  MaxBackoff :: Duration
  BackoffFactor :: float64
  PingInterval :: Duration

fun f64_is_zero :: "float64 \<Rightarrow> bool" where
  "f64_is_zero (Finite m e) = (m = 0)"
| "f64_is_zero _ = False"

definition WithDefaults :: "Config \<Rightarrow> Config" where
  "WithDefaults c =
     (let c1 = (if InitialBackoff c = 0 then c\<lparr>InitialBackoff := 1 * Second\<rparr> else c);
          c2 = (if MaxBackoff c1 = 0 then c1\<lparr>MaxBackoff := 5 * Minute\<rparr> else c1);
          c3 = (if f64_is_zero (BackoffFactor c2) then c2\<lparr>BackoffFactor := Finite 1 1\<rparr> else c2);
          c4 = (if PingInterval c3 = 0 then c3\<lparr>PingInterval := 30 * Second\<rparr> else c3)
      in c4)"

subsection \<open>The JSON library\<close>

text \<open>
  \<open>encoding/json\<close> is not part of the repository. The model takes its functions as a
  parameter, over any representation \<open>'b\<close> of the bytes of a frame:
  \<open>marshal\<close> is \<open>json.Marshal\<close> (the bytes and the error), the others are
  \<open>json.Unmarshal\<close> into a \<open>Message\<close>, a \<open>WelcomePayload\<close>, an \<open>ErrorPayload\<close> (whose
  error the callers discard, so only the struct it leaves is given) and a
  \<open>CommandPayload\<close>.
\<close>

record 'b json_lib =
  marshal :: "any \<Rightarrow> 'b \<times> error option"
  marshalMessage :: "Message \<Rightarrow> 'b \<times> error option"
  unmarshalMessage :: "'b \<Rightarrow> error + Message"
  unmarshalWelcome :: "'b \<Rightarrow> error + WelcomePayload"
  unmarshalError :: "'b \<Rightarrow> ErrorPayload"
  unmarshalCommand :: "'b \<Rightarrow> error + CommandPayload"


section \<open>Connection\<close>

text \<open>
  The transport (a \<open>websocket.Conn\<close>): whether it has been closed and the frames written
  to it. A write on a closed transport fails; on an open one the peer and the network
  decide, which the argument \<open>wr\<close> (the error of this write, if any) stands for.
\<close>

record 'b Conn =
  conn_url :: string
  conn_closed :: bool
  written :: "'b list"

definition WriteMessage :: "error option \<Rightarrow> 'b Conn \<Rightarrow> 'b \<Rightarrow> error option \<times> 'b Conn" where
  "WriteMessage wr k data =
     (if conn_closed k then (Some (External ''use of closed network connection''), k)
      else (case wr of
              Some e \<Rightarrow> (Some e, k)
            | None \<Rightarrow> (None, k\<lparr>written := written k @ [data]\<rparr>)))"

text \<open>A buffered channel: its buffer (oldest element first), its capacity, whether closed.\<close>

record 'a chan =
  chan_buf :: "'a list"
  chan_cap :: nat
  chan_closed :: bool

text \<open>
  A receive that does not wait for a sender: the oldest element and the rest, or nothing
  when the buffer is empty.
\<close>

definition chan_recv :: "'a chan \<Rightarrow> ('a \<times> 'a chan) option" where
  "chan_recv ch =
     (case chan_buf ch of
        [] \<Rightarrow> None
      | x # xs \<Rightarrow> Some (x, ch\<lparr>chan_buf := xs\<rparr>))"

text \<open>
  The client. \<open>closeCh\<close> is a channel that is only ever closed: the field says whether it
  has been. \<open>logger\<close> holds the records the client has emitted, \<open>reading\<close> says whether
  its read task has been started and has not ended.
\<close>

record 'b Client =
  config :: Config
  conn :: "'b Conn option"
  closed :: bool
  closeCh :: bool
  commands :: "Command chan"
  serverID :: string
  metricsIntervalSeconds :: int
  signingPublicKey :: string
  commandsEnabled :: bool
  logger :: "log_record list"
  reading :: bool

definition clog :: "level \<Rightarrow> string \<Rightarrow> 'b Client \<Rightarrow> 'b Client" where
  "clog lvl msg c = c\<lparr>logger := logger c @ [(lvl, msg)]\<rparr>"

definition NewClient :: "Config \<Rightarrow> 'b Client" where
  "NewClient cfg =
     \<lparr>config = WithDefaults cfg, conn = None, closed = False, closeCh = False,
      commands = \<lparr>chan_buf = [], chan_cap = 10, chan_closed = False\<rparr>,
      serverID = [], metricsIntervalSeconds = 0, signingPublicKey = [],
      commandsEnabled = False, logger = [], reading = False\<rparr>"

text \<open>\<open>conn.Close()\<close> on the transport the client holds.\<close>

definition conn_Close :: "'b Client \<Rightarrow> 'b Client" where
  "conn_Close c = c\<lparr>conn := map_option (\<lambda>k. k\<lparr>conn_closed := True\<rparr>) (conn c)\<rparr>"

definition Client_send :: "'b json_lib \<Rightarrow> error option \<Rightarrow> 'b Client \<Rightarrow> Message \<Rightarrow> error option \<times> 'b Client" where
  "Client_send lib wr c msg =
     (case conn c of
        None \<Rightarrow> (Some (Errorf ''not connected''), c)
      | Some k \<Rightarrow>
          (case marshalMessage lib msg of
             (data, Some e) \<Rightarrow> (Some (Wrapf ''marshal: '' e), c)
           | (data, None) \<Rightarrow>
               (case WriteMessage wr k data of (err, k') \<Rightarrow> (err, c\<lparr>conn := Some k'\<rparr>))))"

text \<open>
  \<open>waitForWelcome\<close>: \<open>rd\<close> is what \<open>ReadMessage\<close> returns, an error (the deadline of
  the context passed, the peer closed) or the bytes of the first frame.
\<close>

definition waitForWelcome :: "'b json_lib \<Rightarrow> error + 'b \<Rightarrow> 'b Client \<Rightarrow> error option \<times> 'b Client" where
  "waitForWelcome lib rd c =
     (case rd of
        Inl e \<Rightarrow> (Some (Wrapf ''read message: '' e), c)
      | Inr data \<Rightarrow>
          (case unmarshalMessage lib data of
             Inl e \<Rightarrow> (Some (Wrapf ''unmarshal message: '' e), c)
           | Inr msg \<Rightarrow>
               if Type msg = ''welcome'' then
                 (case marshal lib (Payload msg) of
                    (payloadBytes, Some e) \<Rightarrow> (Some (Wrapf ''marshal payload: '' e), c)
                  | (payloadBytes, None) \<Rightarrow>
                      (case unmarshalWelcome lib payloadBytes of
                         Inl e \<Rightarrow> (Some (Wrapf ''unmarshal welcome: '' e), c)
                       | Inr welcome \<Rightarrow>
                           (None, c\<lparr>serverID := welcome_ServerID welcome,
                                    metricsIntervalSeconds := welcome_MetricsIntervalSeconds welcome,
                                    signingPublicKey := welcome_SigningPublicKey welcome,
                                    commandsEnabled := welcome_CommandsEnabled welcome\<rparr>)))
               else if Type msg = ''error'' then
                 (let payloadBytes = fst (marshal lib (Payload msg));
                      errPayload = unmarshalError lib payloadBytes
                  in (Some (Errorf (''server error: '' @ err_Code errPayload @ '' - ''
                                     @ err_Message errPayload)), c))
               else (Some (Errorf (''unexpected message type: '' @ Type msg)), c)))"

text \<open>
  What the network does during one \<open>Connect\<close>: the error of the dial (and whether it came
  with an HTTP response), the error of the write of agent_hello, the result of the first
  read.
\<close>

record 'b net =
  dial :: "error option"
  dial_resp :: bool
  hello_write :: "error option"
  welcome_read :: "error + 'b"

definition hello_of :: "Config \<Rightarrow> Message" where
  "hello_of cfg =
     \<lparr>Type = ''agent_hello'',
      Payload = AnyHello \<lparr>hello_Token = Token cfg, hello_AgentVersion = AgentVersion cfg,
        hello_Hostname = Hostname cfg, hello_OS = OS cfg, hello_Arch = Arch cfg,
        hello_PostgresVersion = PostgresVersion cfg\<rparr>\<rparr>"

text \<open>
  \<open>Connect\<close>. Indexing the last byte of an empty URL panics. The transport that the
  dial returns is stored in the client before agent_hello is sent; on a failure after
  that point the transport is closed and the field keeps it.
\<close>

definition Client_Connect :: "'b json_lib \<Rightarrow> 'b net \<Rightarrow> 'b Client \<Rightarrow> (error option \<times> 'b Client) ret" where
  "Client_Connect lib env c =
     (if closed c then Return (Some (Errorf ''client is closed''), c)
      else if URL (config c) = [] then Panic ''index out of range [-1]''
      else
        (let url0 = URL (config c);
             url1 = (if last url0 \<noteq> CHR ''?'' then url0 @ ''?'' else url0);
             url = url1 @ ''token='' @ Token (config c);
             c1 = clog LevelDebug ''connecting to control plane'' c
         in case dial env of
              Some e \<Rightarrow>
                Return (Some (Wrapf ''dial: '' e),
                        if dial_resp env then clog LevelError ''connection failed'' c1 else c1)
            | None \<Rightarrow>
                (let c2 = c1\<lparr>conn := Some \<lparr>conn_url = url, conn_closed = False, written = []\<rparr>\<rparr>
                 in case Client_send lib (hello_write env) c2 (hello_of (config c)) of
                      (Some e, c3) \<Rightarrow> Return (Some (Wrapf ''send agent_hello: '' e), conn_Close c3)
                    | (None, c3) \<Rightarrow>
                        (let c4 = clog LevelDebug ''sent agent_hello'' c3
                         in case waitForWelcome lib (welcome_read env) c4 of
                              (Some e, c5) \<Rightarrow>
                                Return (Some (Wrapf ''wait for welcome: '' e), conn_Close c5)
                            | (None, c5) \<Rightarrow>
                                Return (None, (clog LevelInfo ''connected to control plane'' c5)
                                                \<lparr>reading := True\<rparr>)))))"

text \<open>
  \<open>handleCommand\<close>. The send on the command channel is the \<open>select\<close> with a
  \<open>default\<close>: it succeeds when the buffer has room and otherwise takes the default
  branch at once. A send on a closed channel panics.
\<close>

definition command_of :: "(float64 \<Rightarrow> int) \<Rightarrow> CommandPayload \<Rightarrow> Command" where
  "command_of impl cmdPayload =
     (let sp = cp_SignedPayload cmdPayload;
          cmd0 = \<lparr>ID = cp_ID cmdPayload, ServerID = [], CommandName = [], Params = [],
                  Nonce = [], Timestamp = ZeroTime, Signature = cp_Signature cmdPayload,
                  RawPayload = sp\<rparr>;
          cmd1 = (case map_of sp ''server_id'' of
                    Some (JString v) \<Rightarrow> cmd0\<lparr>ServerID := v\<rparr> | _ \<Rightarrow> cmd0);
          cmd2 = (case map_of sp ''command'' of
                    Some (JString v) \<Rightarrow> cmd1\<lparr>CommandName := v\<rparr> | _ \<Rightarrow> cmd1);
          cmd3 = (case map_of sp ''params'' of
                    Some (JObject v) \<Rightarrow> cmd2\<lparr>Params := v\<rparr> | _ \<Rightarrow> cmd2);
          cmd4 = (case map_of sp ''nonce'' of
                    Some (JString v) \<Rightarrow> cmd3\<lparr>Nonce := v\<rparr> | _ \<Rightarrow> cmd3);
          cmd5 = (case map_of sp ''timestamp'' of
                    Some (JNumber ts) \<Rightarrow> cmd4\<lparr>Timestamp := UnixMilli (int64_of_f64 impl ts)\<rparr>
                  | _ \<Rightarrow> cmd4)
      in cmd5)"

definition try_send :: "Command \<Rightarrow> 'b Client \<Rightarrow> 'b Client ret" where
  "try_send cmd c =
     (let ch = commands c
      in if chan_closed ch then Panic ''send on closed channel''
         else if length (chan_buf ch) < chan_cap ch
         then Return (clog LevelInfo ''command received''
                        (c\<lparr>commands := ch\<lparr>chan_buf := chan_buf ch @ [cmd]\<rparr>\<rparr>))
         else Return (clog LevelWarn ''command channel full, dropping command'' c))"

definition handleCommand :: "'b json_lib \<Rightarrow> (float64 \<Rightarrow> int) \<Rightarrow> 'b Client \<Rightarrow> Message \<Rightarrow> 'b Client ret" where
  "handleCommand lib impl c msg =
     (case marshal lib (Payload msg) of
        (payloadBytes, Some e) \<Rightarrow> Return (clog LevelError ''marshal command payload'' c)
      | (payloadBytes, None) \<Rightarrow>
          (case unmarshalCommand lib payloadBytes of
             Inl e \<Rightarrow> Return (clog LevelError ''unmarshal command'' c)
           | Inr cmdPayload \<Rightarrow> try_send (command_of impl cmdPayload) c))"

definition handleMessage :: "'b json_lib \<Rightarrow> (float64 \<Rightarrow> int) \<Rightarrow> 'b Client \<Rightarrow> Message \<Rightarrow> 'b Client ret" where
  "handleMessage lib impl c msg =
     (if Type msg = ''command'' then handleCommand lib impl c msg
      else if Type msg = ''pong'' then Return (clog LevelDebug ''pong received'' c)
      else if Type msg = ''error'' then Return (clog LevelError ''server error'' c)
      else Return (clog LevelDebug ''unknown message type'' c))"

text \<open>
  The read task. \<open>readLoop_exit\<close> is its deferred function; \<open>readLoop\<close> runs over the
  results of the successive \<open>ReadMessage\<close> calls and, when these are used up, is still
  waiting in the next one.
\<close>

definition readLoop_exit :: "'b Client \<Rightarrow> 'b Client ret" where
  "readLoop_exit c =
     (let c1 = (case conn c of Some k \<Rightarrow> c\<lparr>conn := None\<rparr> | None \<Rightarrow> c)
      in if chan_closed (commands c1) then Panic ''close of closed channel''
         else Return (c1\<lparr>commands := (commands c1)\<lparr>chan_closed := True\<rparr>, reading := False\<rparr>))"

fun readLoop :: "'b json_lib \<Rightarrow> (float64 \<Rightarrow> int) \<Rightarrow> 'b Client \<Rightarrow> (error + 'b) list \<Rightarrow> 'b Client ret" where
  "readLoop lib impl c [] =
     (if closeCh c \<or> closed c \<or> conn c = None then readLoop_exit c else Return c)"
| "readLoop lib impl c (rd # rds) =
     (if closeCh c then readLoop_exit c
      else if closed c \<or> conn c = None then readLoop_exit c
      else (case rd of
              Inl e \<Rightarrow> readLoop_exit (if \<not> closed c then clog LevelError ''read error'' c else c)
            | Inr data \<Rightarrow>
                (case unmarshalMessage lib data of
                   Inl e \<Rightarrow> readLoop lib impl (clog LevelWarn ''invalid message'' c) rds
                 | Inr msg \<Rightarrow>
                     (case handleMessage lib impl c msg of
                        Return c' \<Rightarrow> readLoop lib impl c' rds
                      | Panic p \<Rightarrow> Panic p
                      | Blocked \<Rightarrow> Blocked))))"

definition Client_Ping :: "'b json_lib \<Rightarrow> int \<Rightarrow> error option \<Rightarrow> 'b Client \<Rightarrow> error option \<times> 'b Client" where
  "Client_Ping lib now wr c =
     Client_send lib wr c \<lparr>Type = ''ping'', Payload = AnyPing \<lparr>ping_Timestamp = now\<rparr>\<rparr>"

definition Client_SendMetrics ::
    "'b json_lib \<Rightarrow> int \<Rightarrow> error option \<Rightarrow> 'b Client \<Rightarrow> (string \<times> float64) list option \<Rightarrow> error option \<times> 'b Client" where
  "Client_SendMetrics lib now wr c metrics =
     Client_send lib wr c
       \<lparr>Type = ''metrics'',
        Payload = AnyMetrics \<lparr>metrics_Timestamp = now, metrics_Metrics = metrics\<rparr>\<rparr>"

definition Client_SendCommandResult ::
    "'b json_lib \<Rightarrow> error option \<Rightarrow> 'b Client \<Rightarrow> CommandResultPayload \<Rightarrow> error option \<times> 'b Client" where
  "Client_SendCommandResult lib wr c result =
     Client_send lib wr c \<lparr>Type = ''command_result'', Payload = AnyResult result\<rparr>"

definition Client_ServerID :: "'b Client \<Rightarrow> string" where
  "Client_ServerID c = serverID c"

definition Client_MetricsInterval :: "'b Client \<Rightarrow> int" where
  "Client_MetricsInterval c = metricsIntervalSeconds c"

definition Client_SigningPublicKey :: "'b Client \<Rightarrow> string" where
  "Client_SigningPublicKey c = signingPublicKey c"

definition Client_CommandsEnabled :: "'b Client \<Rightarrow> bool" where
  "Client_CommandsEnabled c = commandsEnabled c"

text \<open>\<open>Close\<close> (the error of closing the transport, which every caller drops, is left out).\<close>

definition Client_Close :: "'b Client \<Rightarrow> 'b Client" where
  "Client_Close c =
     (if closed c then c
      else conn_Close (c\<lparr>closed := True, closeCh := True\<rparr>))"

definition IsConnected :: "'b Client \<Rightarrow> bool" where
  "IsConnected c \<longleftrightarrow> conn c \<noteq> None \<and> \<not> closed c"


section \<open>Connection manager\<close>

datatype State = StateDisconnected | StateConnecting | StateConnected

text \<open>
  The manager. \<open>stopCh\<close> and \<open>stoppedCh\<close> are channels that are only ever closed: the
  fields say whether they have been. The three callbacks are code of the caller: the
  fields \<open>onStateChange\<close>, \<open>onCommand\<close> and \<open>metricsHandler\<close> say whether one is
  registered, and the calls made are recorded in \<open>notified\<close> (the arguments of the
  \<open>onStateChange\<close> calls) and \<open>delivered\<close> (those of the \<open>onCommand\<close> calls).
  \<open>assigned\<close> records every value stored into \<open>state\<close>, \<open>mlogger\<close> the records the
  manager has emitted.
\<close>

record 'b Manager =
  mconfig :: Config
  client :: "'b Client option"
  mbackoff :: backoff
  mlogger :: "log_record list"
  state :: State
  stopCh :: bool
  stoppedCh :: bool
  onStateChange :: bool
  onCommand :: bool
  metricsHandler :: bool
  assigned :: "State list"
  notified :: "State list"
  delivered :: "Command list"

definition mlog :: "level \<Rightarrow> string \<Rightarrow> 'b Manager \<Rightarrow> 'b Manager" where
  "mlog lvl msg m = m\<lparr>mlogger := mlogger m @ [(lvl, msg)]\<rparr>"

definition NewManager :: "Config \<Rightarrow> 'b Manager" where
  "NewManager cfg =
     (let config = WithDefaults cfg
      in \<lparr>mconfig = config, client = None,
          mbackoff = newBackoff (InitialBackoff config) (MaxBackoff config) (BackoffFactor config),
          mlogger = [], state = StateDisconnected, stopCh = False, stoppedCh = False,
          onStateChange = False, onCommand = False, metricsHandler = False,
          assigned = [], notified = [], delivered = []\<rparr>)"

definition OnStateChange :: "'b Manager \<Rightarrow> 'b Manager" where
  "OnStateChange m = m\<lparr>onStateChange := True\<rparr>"

definition OnCommand :: "'b Manager \<Rightarrow> 'b Manager" where
  "OnCommand m = m\<lparr>onCommand := True\<rparr>"

definition SetMetricsHandler :: "'b Manager \<Rightarrow> 'b Manager" where
  "SetMetricsHandler m = m\<lparr>metricsHandler := True\<rparr>"

definition setState :: "State \<Rightarrow> 'b Manager \<Rightarrow> 'b Manager" where
  "setState s m =
     (let oldState = state m;
          m1 = m\<lparr>state := s, assigned := assigned m @ [s]\<rparr>
      in if oldState \<noteq> s
         then (let m2 = mlog LevelInfo ''state changed'' m1
               in if onStateChange m2 then m2\<lparr>notified := notified m2 @ [s]\<rparr> else m2)
         else m1)"

definition Manager_State :: "'b Manager \<Rightarrow> State" where
  "Manager_State m = state m"

text \<open>
  \<open>cleanup\<close> closes the client and lets go of it (the closed client is then out of the
  manager's reach), and stores Disconnected without going through \<open>setState\<close>.
\<close>

definition cleanup :: "'b Manager \<Rightarrow> 'b Manager" where
  "cleanup m =
     (let m1 = (case client m of
                  Some c \<Rightarrow> m\<lparr>client := None\<rparr>
                | None \<Rightarrow> m)
      in m1\<lparr>state := StateDisconnected, assigned := assigned m1 @ [StateDisconnected]\<rparr>)"

text \<open>
  \<open>connect\<close>: a new client each time; the manager adopts it only when its \<open>Connect\<close>
  succeeded.
\<close>

definition Manager_connect :: "'b json_lib \<Rightarrow> 'b net \<Rightarrow> 'b Manager \<Rightarrow> (error option \<times> 'b Manager) ret" where
  "Manager_connect lib env m =
     (case Client_Connect lib env (NewClient (mconfig m)) of
        Return (Some err, c) \<Rightarrow> Return (Some err, m)
      | Return (None, c) \<Rightarrow> Return (None, m\<lparr>client := Some c\<rparr>)
      | Panic p \<Rightarrow> Panic p
      | Blocked \<Rightarrow> Blocked)"

text \<open>
  The manager runs beside other tasks: the caller, who may cancel the context, and the read
  task of the client. An event is either an action of one of these, or the case that a
  \<open>select\<close> of the run loop takes, with what the outside world answers to the calls made
  in that case (the time, the error of a write, the metrics the provider returns).
\<close>

datatype 'b event =
    Cancel
  | Reader "error + 'b"
  | Pick_ctx
  | Pick_stop
  | Pick_timer
  | Attempt "'b net"
  | Pick_ping int "error option"
  | Pick_command
  | Pick_default bool "(string \<times> float64) list option" int "error option"

text \<open>
  One iteration of the loop of \<open>runConnected\<close> on the client \<open>c\<close> that the manager
  holds: the loop goes on, or the function returns the reason of the disconnection.
  \<open>ctx\<close> says whether the context is cancelled, \<open>mt\<close> whether the metrics ticker was
  created. A case that the \<open>select\<close> cannot take in this state leaves it unchanged;
  the default case needs the context, \<open>stopCh\<close> and the command channel to offer
  nothing (whether the ping ticker has fired is not part of the state).
\<close>

datatype 'b cstep = Continue "'b Manager" | Exit string "'b Manager"

definition runConnected_step ::
    "'b json_lib \<Rightarrow> bool \<Rightarrow> bool \<Rightarrow> 'b Manager \<Rightarrow> 'b Client \<Rightarrow> 'b event \<Rightarrow> 'b cstep" where
  "runConnected_step lib ctx mt m c ev =
     (case ev of
        Pick_ctx \<Rightarrow>
          if ctx then Exit ''context cancelled'' (m\<lparr>client := Some (Client_Close c)\<rparr>)
          else Continue m
      | Pick_stop \<Rightarrow>
          if stopCh m then Exit ''stop requested'' (m\<lparr>client := Some (Client_Close c)\<rparr>)
          else Continue m
      | Pick_ping now wr \<Rightarrow>
          (case Client_Ping lib now wr c of
             (Some e, c') \<Rightarrow>
               Exit ''ping failed''
                 ((mlog LevelError ''ping failed'' m)\<lparr>client := Some (Client_Close c')\<rparr>)
           | (None, c') \<Rightarrow> Continue ((mlog LevelDebug ''ping sent'' m)\<lparr>client := Some c'\<rparr>))
      | Pick_command \<Rightarrow>
          (case chan_recv (commands c) of
             Some (cmd, ch) \<Rightarrow>
               Continue (m\<lparr>client := Some (c\<lparr>commands := ch\<rparr>),
                           delivered := (if onCommand m then delivered m @ [cmd] else delivered m)\<rparr>)
           | None \<Rightarrow>
               if chan_closed (commands c) then Exit ''commands channel closed'' m
               else Continue m)
      | Pick_default fired metrics now wr \<Rightarrow>
          if ctx \<or> stopCh m \<or> chan_buf (commands c) \<noteq> [] \<or> chan_closed (commands c)
          then Continue m
          else if \<not> IsConnected c then Exit ''connection lost'' m
          else if mt \<and> fired \<and> metricsHandler m then
            (case Client_SendMetrics lib now wr c metrics of
               (Some e, c') \<Rightarrow>
                 Continue ((mlog LevelError ''send metrics failed'' m)\<lparr>client := Some c'\<rparr>)
             | (None, c') \<Rightarrow>
                 Continue ((mlog LevelDebug ''metrics sent'' m)\<lparr>client := Some c'\<rparr>))
          else Continue m
      | _ \<Rightarrow> Continue m)"


text \<open>
  Where the run loop stands: at the \<open>select\<close> that opens an iteration, in the wait
  after a failed attempt (with the delay), in the loop of \<open>runConnected\<close> (with whether
  the metrics ticker exists), in the pause after a disconnection, returned, or stopped
  by a panic.
\<close>

datatype loc = Top | Backoff_wait Duration | Connected_loop bool | Pause | Exited | Crashed string

text \<open>
  The manager, its run loop, the context, and the reasons \<open>runConnected\<close> has returned.
\<close>

record 'b world =
  manager :: "'b Manager"
  loc :: loc
  ctx_done :: bool
  returned :: "string list"

text \<open>\<open>Start\<close>: the run loop begins, with a context that may be cancelled already.\<close>

definition Start :: "bool \<Rightarrow> 'b Manager \<Rightarrow> 'b world" where
  "Start cancelled m = \<lparr>manager = m, loc = Top, ctx_done = cancelled, returned = []\<rparr>"

text \<open>The deferred \<open>close(m.stoppedCh)\<close> of \<open>run\<close>.\<close>

definition exit_run :: "'b world \<Rightarrow> 'b world" where
  "exit_run w =
     (if stoppedCh (manager w) then w\<lparr>loc := Crashed ''close of closed channel''\<rparr>
      else w\<lparr>manager := (manager w)\<lparr>stoppedCh := True\<rparr>, loc := Exited\<rparr>)"

text \<open>What \<open>run\<close> does once \<open>runConnected\<close> has returned \<open>reason\<close>.\<close>

definition finish :: "string \<Rightarrow> 'b Manager \<Rightarrow> 'b world \<Rightarrow> 'b world" where
  "finish reason m w =
     w\<lparr>manager := setState StateDisconnected (mlog LevelInfo ''disconnected'' m),
       loc := Pause, returned := returned w @ [reason]\<rparr>"

text \<open>
  The default case of the first \<open>select\<close>: one attempt, up to the entry into the loop of
  \<open>runConnected\<close> or into the wait before the next attempt. \<open>time.NewTicker\<close> panics
  when its interval is not positive; the product of the metrics interval and a second
  is an int64 product, which wraps around.
\<close>

definition wrap64 :: "int \<Rightarrow> int" where
  "wrap64 x = (x + 2 ^ 63) mod 2 ^ 64 - 2 ^ 63"

definition attempt :: "'b json_lib \<Rightarrow> (float64 \<Rightarrow> int) \<Rightarrow> 'b net \<Rightarrow> 'b world \<Rightarrow> 'b world" where
  "attempt lib impl env w =
     (let m1 = setState StateConnecting (manager w)
      in case Manager_connect lib env m1 of
           Panic p \<Rightarrow> w\<lparr>manager := m1, loc := Crashed p\<rparr>
         | Blocked \<Rightarrow> w\<lparr>manager := m1\<rparr>
         | Return (Some err, m2) \<Rightarrow>
             (let m3 = setState StateDisconnected (mlog LevelError ''connection failed'' m2);
                  (backoffDuration, b') = Next impl (mbackoff m3);
                  m4 = mlog LevelInfo ''reconnecting'' (m3\<lparr>mbackoff := b'\<rparr>)
              in w\<lparr>manager := m4, loc := Backoff_wait backoffDuration\<rparr>)
         | Return (None, m2) \<Rightarrow>
             (let m3 = setState StateConnected m2;
                  m4 = m3\<lparr>mbackoff := Reset (mbackoff m3)\<rparr>
              in case client m4 of
                   None \<Rightarrow> finish ''no client'' m4 w
                 | Some c \<Rightarrow>
                     if PingInterval (mconfig m4) \<le> 0
                     then w\<lparr>manager := m4, loc := Crashed ''non-positive interval for NewTicker''\<rparr>
                     else if metricsHandler m4 \<and> 0 < Client_MetricsInterval c
                     then (if wrap64 (Client_MetricsInterval c * Second) \<le> 0
                           then w\<lparr>manager := m4,
                                 loc := Crashed ''non-positive interval for NewTicker''\<rparr>
                           else w\<lparr>manager := m4, loc := Connected_loop True\<rparr>)
                     else w\<lparr>manager := m4, loc := Connected_loop False\<rparr>))"

definition reader_step :: "'b json_lib \<Rightarrow> (float64 \<Rightarrow> int) \<Rightarrow> error + 'b \<Rightarrow> 'b world \<Rightarrow> 'b world" where
  "reader_step lib impl rd w =
     (case client (manager w) of
        None \<Rightarrow> w
      | Some c \<Rightarrow>
          if reading c then
            (case readLoop lib impl c [rd] of
               Return c' \<Rightarrow> w\<lparr>manager := (manager w)\<lparr>client := Some c'\<rparr>\<rparr>
             | Panic p \<Rightarrow> w\<lparr>loc := Crashed p\<rparr>
             | Blocked \<Rightarrow> w)
          else w)"

definition wait_step :: "'b world \<Rightarrow> 'b event \<Rightarrow> 'b world" where
  "wait_step w ev =
     (case ev of
        Pick_ctx \<Rightarrow> if ctx_done w then exit_run w else w
      | Pick_stop \<Rightarrow> if stopCh (manager w) then exit_run w else w
      | Pick_timer \<Rightarrow> w\<lparr>loc := Top\<rparr>
      | _ \<Rightarrow> w)"

definition top_step :: "'b json_lib \<Rightarrow> (float64 \<Rightarrow> int) \<Rightarrow> 'b world \<Rightarrow> 'b event \<Rightarrow> 'b world" where
  "top_step lib impl w ev =
     (case ev of
        Pick_ctx \<Rightarrow>
          if ctx_done w
          then exit_run (w\<lparr>manager := cleanup (mlog LevelInfo
                 ''connection manager stopping (context cancelled)'' (manager w))\<rparr>)
          else w
      | Pick_stop \<Rightarrow>
          if stopCh (manager w)
          then exit_run (w\<lparr>manager := cleanup (mlog LevelInfo
                 ''connection manager stopping (stop requested)'' (manager w))\<rparr>)
          else w
      | Attempt env \<Rightarrow>
          if ctx_done w \<or> stopCh (manager w) then w else attempt lib impl env w
      | _ \<Rightarrow> w)"

definition step :: "'b json_lib \<Rightarrow> (float64 \<Rightarrow> int) \<Rightarrow> 'b world \<Rightarrow> 'b event \<Rightarrow> 'b world" where
  "step lib impl w ev =
     (case loc w of
        Crashed p \<Rightarrow> w
      | l \<Rightarrow>
          (case ev of
             Cancel \<Rightarrow> w\<lparr>ctx_done := True\<rparr>
           | Reader rd \<Rightarrow> reader_step lib impl rd w
           | _ \<Rightarrow>
               (case l of
                  Top \<Rightarrow> top_step lib impl w ev
                | Backoff_wait d \<Rightarrow> wait_step w ev
                | Pause \<Rightarrow> wait_step w ev
                | Connected_loop mt \<Rightarrow>
                    (case client (manager w) of
                       None \<Rightarrow> w
                     | Some c \<Rightarrow>
                         (case runConnected_step lib (ctx_done w) mt (manager w) c ev of
                            Continue m' \<Rightarrow> w\<lparr>manager := m'\<rparr>
                          | Exit reason m' \<Rightarrow> finish reason m' w))
                | _ \<Rightarrow> w)))"

text \<open>The run loop and the other tasks over a sequence of events.\<close>

definition run :: "'b json_lib \<Rightarrow> (float64 \<Rightarrow> int) \<Rightarrow> 'b world \<Rightarrow> 'b event list \<Rightarrow> 'b world" where
  "run lib impl w evs = foldl (step lib impl) w evs"

text \<open>
  \<open>Stop\<close>: \<open>close(m.stopCh)\<close>, which panics on a closed channel, then the receive from
  \<open>stoppedCh\<close>. \<open>others\<close> is what the other tasks do to the manager between the two;
  the receive returns when \<open>stoppedCh\<close> is closed by then, and blocks otherwise.
\<close>

definition Manager_Stop :: "('b Manager \<Rightarrow> 'b Manager) \<Rightarrow> 'b Manager \<Rightarrow> 'b Manager ret" where
  "Manager_Stop others m =
     (if stopCh m then Panic ''close of closed channel''
      else (let m1 = others (m\<lparr>stopCh := True\<rparr>)
            in if stoppedCh m1 then Return m1 else Blocked))"

text \<open>The run loop as the other task of a \<open>Stop\<close>.\<close>

definition run_on :: "'b json_lib \<Rightarrow> (float64 \<Rightarrow> int) \<Rightarrow> 'b world \<Rightarrow> 'b event list \<Rightarrow> 'b Manager \<Rightarrow> 'b Manager" where
  "run_on lib impl w evs m = manager (run lib impl (w\<lparr>manager := m\<rparr>) evs)"

definition Manager_SendCommandResult ::
    "'b json_lib \<Rightarrow> error option \<Rightarrow> 'b Manager \<Rightarrow> CommandResultPayload \<Rightarrow> error option \<times> 'b Manager" where
  "Manager_SendCommandResult lib wr m result =
     (case client m of
        None \<Rightarrow> (Some ErrNotConnected, m)
      | Some c \<Rightarrow>
          (case Client_SendCommandResult lib wr c result of
             (err, c') \<Rightarrow> (err, m\<lparr>client := Some c'\<rparr>)))"

definition Manager_ServerID :: "'b Manager \<Rightarrow> string" where
  "Manager_ServerID m = (case client m of None \<Rightarrow> [] | Some c \<Rightarrow> Client_ServerID c)"

definition Manager_SigningPublicKey :: "'b Manager \<Rightarrow> string" where
  "Manager_SigningPublicKey m =
     (case client m of None \<Rightarrow> [] | Some c \<Rightarrow> Client_SigningPublicKey c)"


section \<open>An instance of the JSON library\<close>

text \<open>
  To run the model on examples: frames are JSON values, \<open>jvalue\<close> itself being the
  representation of their bytes. Object keys are matched exactly, a field that is
  absent or null keeps its zero value, a field of the wrong type is an error.
\<close>

definition type_error :: error where
  "type_error = External ''json: cannot unmarshal value into Go value''"

fun as_string :: "jvalue option \<Rightarrow> error + string" where
  "as_string None = Inr []"
| "as_string (Some JNull) = Inr []"
| "as_string (Some (JString s)) = Inr s"
| "as_string (Some v) = Inl type_error"

fun as_bool :: "jvalue option \<Rightarrow> error + bool" where
  "as_bool None = Inr False"
| "as_bool (Some JNull) = Inr False"
| "as_bool (Some (JBool b)) = Inr b"
| "as_bool (Some v) = Inl type_error"

definition f64_exact_int :: "float64 \<Rightarrow> int option" where
  "f64_exact_int x =
     (case x of
        Finite m e \<Rightarrow>
          if 0 \<le> e then Some (m * 2 ^ nat e)
          else if m mod 2 ^ nat (- e) = 0 then Some (m div 2 ^ nat (- e))
          else None
      | _ \<Rightarrow> None)"

fun as_int :: "jvalue option \<Rightarrow> error + int" where
  "as_int None = Inr 0"
| "as_int (Some JNull) = Inr 0"
| "as_int (Some (JNumber x)) =
     (case f64_exact_int x of
        Some n \<Rightarrow> if int64_range n then Inr n else Inl type_error
      | None \<Rightarrow> Inl type_error)"
| "as_int (Some v) = Inl type_error"

fun as_map :: "jvalue option \<Rightarrow> error + jmap" where
  "as_map None = Inr []"
| "as_map (Some JNull) = Inr []"
| "as_map (Some (JObject kvs)) = Inr kvs"
| "as_map (Some v) = Inl type_error"

definition or_zero :: "'a \<Rightarrow> error + 'a \<Rightarrow> 'a" where
  "or_zero z r = (case r of Inl e \<Rightarrow> z | Inr v \<Rightarrow> v)"

fun tree_unmarshalMessage :: "jvalue \<Rightarrow> error + Message" where
  "tree_unmarshalMessage (JObject kvs) =
     (case as_string (map_of kvs ''type'') of
        Inl e \<Rightarrow> Inl e
      | Inr t \<Rightarrow>
          Inr \<lparr>Type = t,
               Payload = AnyJSON (case map_of kvs ''payload'' of None \<Rightarrow> JNull | Some v \<Rightarrow> v)\<rparr>)"
| "tree_unmarshalMessage JNull = Inr \<lparr>Type = [], Payload = AnyJSON JNull\<rparr>"
| "tree_unmarshalMessage v = Inl type_error"

fun tree_unmarshalWelcome :: "jvalue \<Rightarrow> error + WelcomePayload" where
  "tree_unmarshalWelcome (JObject kvs) =
     (case (as_string (map_of kvs ''server_id''), as_int (map_of kvs ''metrics_interval_seconds''),
            as_string (map_of kvs ''signing_public_key''), as_bool (map_of kvs ''commands_enabled'')) of
        (Inr sid, Inr n, Inr key, Inr en) \<Rightarrow>
          Inr \<lparr>welcome_ServerID = sid, welcome_MetricsIntervalSeconds = n,
               welcome_SigningPublicKey = key, welcome_CommandsEnabled = en\<rparr>
      | _ \<Rightarrow> Inl type_error)"
| "tree_unmarshalWelcome JNull =
     Inr \<lparr>welcome_ServerID = [], welcome_MetricsIntervalSeconds = 0,
          welcome_SigningPublicKey = [], welcome_CommandsEnabled = False\<rparr>"
| "tree_unmarshalWelcome v = Inl type_error"

fun tree_unmarshalError :: "jvalue \<Rightarrow> ErrorPayload" where
  "tree_unmarshalError (JObject kvs) =
     \<lparr>err_Code = or_zero [] (as_string (map_of kvs ''code'')),
      err_Message = or_zero [] (as_string (map_of kvs ''message'')),
      err_RetryAfterSeconds = or_zero 0 (as_int (map_of kvs ''retry_after_seconds''))\<rparr>"
| "tree_unmarshalError v = \<lparr>err_Code = [], err_Message = [], err_RetryAfterSeconds = 0\<rparr>"

fun tree_unmarshalCommand :: "jvalue \<Rightarrow> error + CommandPayload" where
  "tree_unmarshalCommand (JObject kvs) =
     (case (as_string (map_of kvs ''id''), as_map (map_of kvs ''signed_payload''),
            as_string (map_of kvs ''signature'')) of
        (Inr i, Inr sp, Inr sg) \<Rightarrow> Inr \<lparr>cp_ID = i, cp_SignedPayload = sp, cp_Signature = sg\<rparr>
      | _ \<Rightarrow> Inl type_error)"
| "tree_unmarshalCommand JNull = Inr \<lparr>cp_ID = [], cp_SignedPayload = [], cp_Signature = []\<rparr>"
| "tree_unmarshalCommand v = Inl type_error"

fun tree_marshal :: "any \<Rightarrow> jvalue \<times> error option" where
  "tree_marshal (AnyJSON v) = (v, None)"
| "tree_marshal (AnyHello h) =
     (JObject [(''token'', JString (hello_Token h)),
               (''agent_version'', JString (hello_AgentVersion h)),
               (''hostname'', JString (hello_Hostname h)), (''os'', JString (hello_OS h)),
               (''arch'', JString (hello_Arch h))], None)"
| "tree_marshal (AnyWelcome x) =
     (JObject [(''server_id'', JString (welcome_ServerID x)),
               (''metrics_interval_seconds'', JNumber (f64_of_int (welcome_MetricsIntervalSeconds x))),
               (''commands_enabled'', JBool (welcome_CommandsEnabled x))], None)"
| "tree_marshal (AnyError x) =
     (JObject [(''code'', JString (err_Code x)), (''message'', JString (err_Message x)),
               (''retry_after_seconds'', JNumber (f64_of_int (err_RetryAfterSeconds x)))], None)"
| "tree_marshal (AnyMetrics x) =
     (JObject [(''timestamp'', JNumber (f64_of_int (metrics_Timestamp x))),
               (''metrics'', (case metrics_Metrics x of
                                None \<Rightarrow> JNull
                              | Some kvs \<Rightarrow> JObject (map (\<lambda>(k, v). (k, JNumber v)) kvs)))], None)"
| "tree_marshal (AnyPing x) =
     (JObject [(''timestamp'', JNumber (f64_of_int (ping_Timestamp x)))], None)"
| "tree_marshal (AnyResult x) =
     (JObject [(''command_id'', JString (result_CommandID x)),
               (''status'', JString (result_Status x))], None)"

definition tree_marshalMessage :: "Message \<Rightarrow> jvalue \<times> error option" where
  "tree_marshalMessage msg =
     (JObject [(''type'', JString (Type msg)), (''payload'', fst (tree_marshal (Payload msg)))],
      None)"

definition tree_lib :: "jvalue json_lib" where
  "tree_lib =
     \<lparr>marshal = tree_marshal, marshalMessage = tree_marshalMessage,
      unmarshalMessage = tree_unmarshalMessage, unmarshalWelcome = tree_unmarshalWelcome,
      unmarshalError = tree_unmarshalError, unmarshalCommand = tree_unmarshalCommand\<rparr>"


section \<open>Notions used by the claims\<close>

text \<open>The command that a message carries, when its payload decodes.\<close>

definition decode_command :: "'b json_lib \<Rightarrow> (float64 \<Rightarrow> int) \<Rightarrow> Message \<Rightarrow> Command option" where
  "decode_command lib impl msg =
     (case marshal lib (Payload msg) of
        (bs, Some e) \<Rightarrow> None
      | (bs, None) \<Rightarrow>
          (case unmarshalCommand lib bs of
             Inl e \<Rightarrow> None
           | Inr cp \<Rightarrow> Some (command_of impl cp)))"

text \<open>
  The command queue under its two users: the read task hands it a command message
  (\<open>Arrive\<close>), the run loop receives from it (\<open>Take\<close>, which finds nothing when the
  buffer is empty). \<open>queue_run\<close> gives the commands taken, in order, and the client.
\<close>

datatype qop = Arrive Message | Take

fun queue_run :: "'b json_lib \<Rightarrow> (float64 \<Rightarrow> int) \<Rightarrow> 'b Client \<Rightarrow> qop list \<Rightarrow> (Command list \<times> 'b Client) ret" where
  "queue_run lib impl c [] = Return ([], c)"
| "queue_run lib impl c (Arrive msg # ops) =
     (case handleCommand lib impl c msg of
        Return c' \<Rightarrow> queue_run lib impl c' ops
      | Panic p \<Rightarrow> Panic p
      | Blocked \<Rightarrow> Blocked)"
| "queue_run lib impl c (Take # ops) =
     (case chan_recv (commands c) of
        None \<Rightarrow> queue_run lib impl c ops
      | Some (cmd, ch) \<Rightarrow>
          (case queue_run lib impl (c\<lparr>commands := ch\<rparr>) ops of
             Return (taken, c') \<Rightarrow> Return (cmd # taken, c')
           | Panic p \<Rightarrow> Panic p
           | Blocked \<Rightarrow> Blocked))"

text \<open>The commands carried by the messages that arrive, in order.\<close>

fun arrivals :: "'b json_lib \<Rightarrow> (float64 \<Rightarrow> int) \<Rightarrow> qop list \<Rightarrow> Command list" where
  "arrivals lib impl [] = []"
| "arrivals lib impl (Arrive msg # ops) =
     (case decode_command lib impl msg of
        None \<Rightarrow> arrivals lib impl ops
      | Some cmd \<Rightarrow> cmd # arrivals lib impl ops)"
| "arrivals lib impl (Take # ops) = arrivals lib impl ops"

text \<open>
  The first reply to agent_hello as the specification classes it: a welcome, a
  rejection by the server, or a violation of the protocol (any other type, a frame or
  payload that does not decode, a read that fails or times out).
\<close>

datatype handshake = Welcome WelcomePayload | Rejection ErrorPayload | ProtocolViolation

definition first_reply :: "'b json_lib \<Rightarrow> error + 'b \<Rightarrow> handshake" where
  "first_reply lib rd =
     (case rd of
        Inl e \<Rightarrow> ProtocolViolation
      | Inr data \<Rightarrow>
          (case unmarshalMessage lib data of
             Inl e \<Rightarrow> ProtocolViolation
           | Inr msg \<Rightarrow>
               if Type msg = ''welcome'' then
                 (case marshal lib (Payload msg) of
                    (bs, Some e) \<Rightarrow> ProtocolViolation
                  | (bs, None) \<Rightarrow>
                      (case unmarshalWelcome lib bs of
                         Inl e \<Rightarrow> ProtocolViolation
                       | Inr w \<Rightarrow> Welcome w))
               else if Type msg = ''error''
               then Rejection (unmarshalError lib (fst (marshal lib (Payload msg))))
               else ProtocolViolation))"

text \<open>The failure that reports a rejection: its message starts with \<open>server error: \<close>.\<close>

fun is_server_error :: "error \<Rightarrow> bool" where
  "is_server_error (Errorf s) = (take 14 s = ''server error: '')"
| "is_server_error e = False"

text \<open>
  The values of a sequence of stores into the state that differ from the value they
  replace, \<open>s\<close> being the value before the first store: the actual transitions.
\<close>

fun changes :: "State \<Rightarrow> State list \<Rightarrow> State list" where
  "changes s [] = []"
| "changes s (x # xs) = (if x \<noteq> s then x # changes x xs else changes x xs)"

text \<open>
  The observer has been called once for each actual transition and never otherwise, and
  the state is the value stored last.
\<close>

definition notify_ok :: "'b Manager \<Rightarrow> bool" where
  "notify_ok m \<longleftrightarrow>
     notified m = (if onStateChange m then changes StateDisconnected (assigned m) else [])
     \<and> state m = last (StateDisconnected # assigned m)"

text \<open>Outside the connected phase and the attempt itself the state is Disconnected.\<close>

definition world_ok :: "'b world \<Rightarrow> bool" where
  "world_ok w \<longleftrightarrow>
     notify_ok (manager w)
     \<and> (case loc w of
           Top \<Rightarrow> state (manager w) = StateDisconnected
         | Backoff_wait d \<Rightarrow> state (manager w) = StateDisconnected
         | Pause \<Rightarrow> state (manager w) = StateDisconnected
         | _ \<Rightarrow> True)"

text \<open>
  What one step may do to the manager: it keeps the two properties above, only adds to
  the stores into the state, and leaves the observer, \<open>stopCh\<close> and the configuration
  alone.
\<close>

definition evolves :: "'b world \<Rightarrow> 'b world \<Rightarrow> bool" where
  "evolves w w' \<longleftrightarrow>
     (world_ok w \<longrightarrow> world_ok w')
     \<and> prefix (assigned (manager w)) (assigned (manager w'))
     \<and> onStateChange (manager w') = onStateChange (manager w)
     \<and> stopCh (manager w') = stopCh (manager w)
     \<and> mconfig (manager w') = mconfig (manager w)"

text \<open>An event that is an attempt whose handshake succeeds, under configuration \<open>cfg\<close>.\<close>

definition connects :: "'b json_lib \<Rightarrow> Config \<Rightarrow> 'b event \<Rightarrow> bool" where
  "connects lib cfg ev =
     (case ev of
        Attempt env \<Rightarrow>
          (case Client_Connect lib env (NewClient cfg) of
             Return (None, c) \<Rightarrow> True
           | _ \<Rightarrow> False)
      | _ \<Rightarrow> False)"

text \<open>The command channel as \<open>NewClient\<close> makes it, at any filling: open, of capacity 10.\<close>

definition q_ok :: "'b Client \<Rightarrow> bool" where
  "q_ok c \<longleftrightarrow> \<not> chan_closed (commands c) \<and> chan_cap (commands c) = 10
              \<and> length (chan_buf (commands c)) \<le> 10"

section \<open>The scenario of the package's tests\<close>

text \<open>
  A peer that answers agent_hello with a welcome (or with an error frame), sends a
  command, and a manager with the handlers that the tests register.
\<close>

definition test_config :: Config where
  "test_config =
     \<lparr>URL = ''ws://127.0.0.1:8080/ws'', Token = ''test'', AgentVersion = ''1.0.0'',
      Hostname = ''test-host'', OS = ''linux'', Arch = ''amd64'', PostgresVersion = [],
      InitialBackoff = 0, MaxBackoff = 0, BackoffFactor = Finite 0 0,
      PingInterval = 1 * Second\<rparr>"

definition welcome_frame :: jvalue where
  "welcome_frame =
     JObject [(''type'', JString ''welcome''),
              (''payload'', JObject [(''server_id'', JString ''srv_123''),
                                     (''metrics_interval_seconds'', JNumber (Finite 30 0)),
                                     (''commands_enabled'', JBool True)])]"

definition error_frame :: "int \<Rightarrow> jvalue" where
  "error_frame retry =
     JObject [(''type'', JString ''error''),
              (''payload'', JObject [(''code'', JString ''auth_failed''),
                                     (''message'', JString ''invalid token''),
                                     (''retry_after_seconds'', JNumber (Finite retry 0))])]"

definition command_frame :: jvalue where
  "command_frame =
     JObject [(''type'', JString ''command''),
              (''payload'', JObject [(''id'', JString ''cmd_123''),
                 (''signed_payload'', JObject [(''server_id'', JString ''srv_123''),
                                               (''command'', JString ''vacuum_analyze''),
                                               (''nonce'', JString ''abc-123''),
                                               (''timestamp'', JNumber (Finite 1700000000000 0))]),
                 (''signature'', JString ''base64signature'')])]"

definition peer :: "jvalue \<Rightarrow> jvalue net" where
  "peer reply = \<lparr>dial = None, dial_resp = False, hello_write = None, welcome_read = Inr reply\<rparr>"

definition test_manager :: "jvalue Manager" where
  "test_manager = SetMetricsHandler (OnCommand (OnStateChange (NewManager test_config)))"

text \<open>The world once the first handshake of the test manager has succeeded, and its client.\<close>

definition connected_world :: "jvalue world" where
  "connected_world =
     step tree_lib amd64_conv (Start False test_manager) (Attempt (peer welcome_frame))"

definition connected_client :: "jvalue Client" where
  "connected_client = the (client (manager connected_world))"

definition command_message :: Message where
  "command_message =
     \<lparr>Type = ''command'',
      Payload = AnyJSON (JObject [(''id'', JString ''cmd_123''),
                 (''signed_payload'', JObject [(''server_id'', JString ''srv_123''),
                                               (''command'', JString ''vacuum_analyze''),
                                               (''nonce'', JString ''abc-123''),
                                               (''timestamp'', JNumber (Finite 1700000000000 0))]),
                 (''signature'', JString ''base64signature'')])\<rparr>"

text \<open>
  Commands told apart by their id, and the client of the test scenario once ten of them
  have arrived and none has been taken.
\<close>

definition command_with_id :: "string \<Rightarrow> Message" where
  "command_with_id i =
     \<lparr>Type = ''command'',
      Payload = AnyJSON (JObject [(''id'', JString i),
                 (''signed_payload'', JObject [(''server_id'', JString ''srv_123''),
                                               (''command'', JString ''vacuum_analyze''),
                                               (''nonce'', JString ''abc-123''),
                                               (''timestamp'', JNumber (Finite 1700000000000 0))]),
                 (''signature'', JString ''base64signature'')])\<rparr>"

definition ten_ids :: "string list" where
  "ten_ids = [''c01'', ''c02'', ''c03'', ''c04'', ''c05'', ''c06'', ''c07'', ''c08'', ''c09'', ''c10'']"

definition full_client :: "jvalue Client" where
  "full_client =
     (case queue_run tree_lib amd64_conv (NewClient test_config)
             (map (\<lambda>i. Arrive (command_with_id i)) ten_ids) of
        Return (taken, c) \<Rightarrow> c
      | _ \<Rightarrow> NewClient test_config)"

section \<open>Verified properties\<close>

subsection \<open>Rounding and truncation\<close>


lemma f64_round_exact:
  assumes "\<bar>m\<bar> < 2 ^ 53" "- 1074 \<le> e" "e \<le> 971"
  shows "f64_round m e = Finite m e"
proof -
  have "bitlen \<bar>m\<bar> \<le> 53" using assms(1) by (simp add: bitlen_le_iff_power)
  then show ?thesis using assms by (simp add: f64_round_def Let_def)
qed

lemma rne_ge_div: "m div 2 ^ k \<le> rne m k"
  by (simp add: rne_def Let_def)

lemma div_ge: "(0::int) < b \<Longrightarrow> c * b \<le> m \<Longrightarrow> c \<le> m div b"
  by (metis zdiv_mono1 nonzero_mult_div_cancel_right less_irrefl)

lemma div_le: "(0::int) < b \<Longrightarrow> m \<le> c * b \<Longrightarrow> m div b \<le> c"
  by (metis zdiv_mono1 nonzero_mult_div_cancel_right less_irrefl)

lemma rne_le: 
  assumes "m \<le> j * 2 ^ k"
  shows "rne m k \<le> j"
proof (cases "m mod 2 ^ k = 0")
  case True
  then have "rne m k = m div 2 ^ k" by (simp add: rne_def Let_def)
  moreover have "m div 2 ^ k \<le> j"
    using assms by (simp add: div_le)
  ultimately show ?thesis by simp
next
  case False
  have p: "(0::int) < 2 ^ k" by simp
  have "m div 2 ^ k * 2 ^ k < m"
    using False p by (smt (verit) mod_div_mult_eq pos_mod_sign)
  then have "m div 2 ^ k * 2 ^ k < j * 2 ^ k" using assms by linarith
  then have "m div 2 ^ k < j" using p by (simp add: mult_less_cancel_right)
  moreover have "rne m k \<le> m div 2 ^ k + 1" by (simp add: rne_def Let_def)
  ultimately show ?thesis by linarith
qed

lemma trunc_bounds:
  assumes "0 \<le> m" "c * 2 ^ nat (- e) \<le> m * 2 ^ nat e" "m * 2 ^ nat e \<le> u * 2 ^ nat (- e)"
  shows "c \<le> trunc_pow2 m e \<and> trunc_pow2 m e \<le> u"
proof (cases "0 \<le> e")
  case True
  then show ?thesis using assms by (simp add: trunc_pow2_def)
next
  case False
  then have "nat e = 0" by simp
  then show ?thesis using assms False by (simp add: trunc_pow2_def div_ge div_le)
qed

lemma bitlen_pos_le: "m \<le> 2 ^ n \<Longrightarrow> bitlen m \<le> int n + 1"
proof -
  assume a: "m \<le> 2 ^ n"
  have "(0::int) < 2 ^ n" by simp
  with a have "m < 2 * 2 ^ n" by linarith
  then show ?thesis by (simp add: bitlen_le_iff_power nat_add_distrib)
qed

lemma pow2_le_exp: "(2::int) ^ a \<le> 2 ^ b \<Longrightarrow> a \<le> b"
  by simp

lemma no_overflow:
  assumes m0: "0 \<le> m" and hi: "m * 2 ^ nat e \<le> 2 ^ 62 * 2 ^ nat (- e)"
  shows "\<not> (m \<noteq> 0 \<and> 1024 < bitlen \<bar>m\<bar> + e)"
proof (cases "m = 0")
  case True
  then show ?thesis by simp
next
  case False
  with m0 have m1: "1 \<le> m" by simp
  show ?thesis
  proof (cases "0 \<le> e")
    case True
    then have h: "m * 2 ^ nat e \<le> 2 ^ 62" using hi by simp
    have "1 * 2 ^ nat e \<le> m * (2::int) ^ nat e"
      using m1 by (intro mult_right_mono) simp_all
    then have "(2::int) ^ nat e \<le> m * 2 ^ nat e" by simp
    from this h have "(2::int) ^ nat e \<le> 2 ^ 62" by (rule order_trans)
    then have e62: "nat e \<le> 62" by (rule pow2_le_exp)
    have "m * 1 \<le> m * 2 ^ nat e"
      using m0 by (intro mult_left_mono) simp_all
    then have "m \<le> m * 2 ^ nat e" by simp
    from this h have "m \<le> 2 ^ 62" by (rule order_trans)
    then have "bitlen m \<le> 63" using bitlen_pos_le [of m 62] by simp
    moreover from e62 True have "e \<le> 62" by simp
    ultimately show ?thesis using m0 by simp
  next
    case False
    then have "m \<le> 2 ^ (62 + nat (- e))" using hi by (simp add: power_add)
    then have "bitlen m \<le> int (62 + nat (- e)) + 1" by (rule bitlen_pos_le)
    with False m0 show ?thesis by simp
  qed
qed

lemma f64_round_small:
  assumes "max (bitlen \<bar>m\<bar> - 53) (- 1074 - e) \<le> 0"
    and "\<not> (m \<noteq> 0 \<and> 1024 < bitlen \<bar>m\<bar> + e)"
  shows "f64_round m e = Finite m e"
  using assms unfolding f64_round_def Let_def by (simp only: if_True if_False)

lemma f64_round_big:
  assumes "k = max (bitlen \<bar>m\<bar> - 53) (- 1074 - e)" "\<not> k \<le> 0"
    and "\<not> (rne m (nat k) \<noteq> 0 \<and> 1024 < bitlen \<bar>rne m (nat k)\<bar> + (e + k))"
  shows "f64_round m e = Finite (rne m (nat k)) (e + k)"
  using assms unfolding f64_round_def Let_def by (simp only: if_True if_False)

lemma round_core:
  fixes M E c :: int
  assumes c0: "0 \<le> c" and c53: "c \<le> 2 ^ 53"
    and lo: "c * 2 ^ nat (- E) \<le> M * 2 ^ nat E"
    and hi: "M * 2 ^ nat E \<le> 2 ^ 62 * 2 ^ nat (- E)"
  shows "\<exists>m' e'. f64_round M E = Finite m' e' \<and> 0 \<le> m' \<and>
           c * 2 ^ nat (- e') \<le> m' * 2 ^ nat e' \<and> m' * 2 ^ nat e' \<le> 2 ^ 62 * 2 ^ nat (- e')"
proof -
  have "0 \<le> M * 2 ^ nat E" using c0 lo by (smt (verit) mult_nonneg_nonneg zero_le_power)
  then have M0: "0 \<le> M" by (simp add: zero_le_mult_iff)
  define k where "k = max (bitlen \<bar>M\<bar> - 53) (- 1074 - E)"
  show ?thesis
  proof (cases "k \<le> 0")
    case True
    then have "f64_round M E = Finite M E"
      unfolding k_def using no_overflow [OF M0 hi] by (rule f64_round_small)
    then show ?thesis using M0 lo hi by simp
  next
    case False
    define n where "n = nat k"
    from False have kn: "k = int n" by (simp add: n_def)
    define m' where "m' = rne M n"
    define e' where "e' = E + k"
    have B: "0 \<le> m' \<and> c * 2 ^ nat (- e') \<le> m' * 2 ^ nat e' \<and> m' * 2 ^ nat e' \<le> 2 ^ 62 * 2 ^ nat (- e')"
    proof (cases "e' \<le> 0")
      case True
      then have E: "nat E = 0" "nat (- E) = nat (- e') + n" "nat e' = 0"
        using False by (simp_all add: e'_def kn)
      have "(c * 2 ^ nat (- e')) * 2 ^ n \<le> M" using lo E by (simp add: power_add mult.assoc)
      then have "c * 2 ^ nat (- e') \<le> M div 2 ^ n" by (intro div_ge) simp_all
      then have l: "c * 2 ^ nat (- e') \<le> m'" using rne_ge_div [of M n] by (simp add: m'_def)
      have "M \<le> (2 ^ 62 * 2 ^ nat (- e')) * 2 ^ n" using hi E by (simp add: power_add mult.assoc)
      then have u: "m' \<le> 2 ^ 62 * 2 ^ nat (- e')" unfolding m'_def by (rule rne_le)
      have "0 \<le> c * 2 ^ nat (- e')" using c0 by simp
      with l have "0 \<le> m'" by linarith
      with l u E show ?thesis by simp
    next
      case e'pos: False
      have kb: "k = bitlen \<bar>M\<bar> - 53"
        using e'pos by (simp add: k_def e'_def max_def split: if_splits)
      then have bl: "bitlen M = 53 + int n" using M0 kn by simp
      then have Mpos: "0 < M" using M0 by (cases "M = 0") simp_all
      have "2 ^ nat (bitlen M - 1) \<le> M" using bitlen_bounds [OF Mpos] by simp
      moreover have "nat (bitlen M - 1) = 52 + n" using bl by simp
      ultimately have "(2 ^ 52) * 2 ^ n \<le> M" by (simp add: power_add)
      then have "2 ^ 52 \<le> M div 2 ^ n" by (intro div_ge) simp_all
      then have m52: "2 ^ 52 \<le> m'" using rne_ge_div [of M n] by (simp add: m'_def)
      obtain j where j: "nat e' = Suc j" using e'pos by (cases "nat e'") simp_all
      have ne: "nat (- e') = 0" using e'pos by simp
      have "(2::int) ^ 52 * 2 ^ Suc 0 \<le> m' * 2 ^ nat e'"
        using m52 unfolding j by (intro mult_mono) simp_all
      then have l: "c \<le> m' * 2 ^ nat e'" using c53 by simp
      have Mlow: "(2::int) ^ (52 + n) \<le> M" using \<open>(2 ^ 52) * 2 ^ n \<le> M\<close> by (simp add: power_add)
      have cmb: "(2::int) ^ (52 + n + nat E) \<le> 2 ^ (62 + nat (- E))"
      proof -
        have "(2::int) ^ (52 + n) * 2 ^ nat E \<le> M * 2 ^ nat E"
          using Mlow by (intro mult_right_mono) simp_all
        from this hi have "(2::int) ^ (52 + n) * 2 ^ nat E \<le> 2 ^ 62 * 2 ^ nat (- E)"
          by (rule order_trans)
        then show ?thesis by (simp only: power_add)
      qed
      then have "52 + n + nat E \<le> 62 + nat (- E)" by (rule pow2_le_exp)
      then have e10: "e' \<le> 10" by (simp add: e'_def kn)
      define J :: int where "J = 2 ^ nat (62 - e')"
      have "M * 2 ^ nat E \<le> (J * 2 ^ n) * 2 ^ nat E"
      proof -
        have "nat (62 - e') + n + nat E = 62 + nat (- E)" using e10 by (simp add: e'_def kn)
        then have "(2::int) ^ (nat (62 - e') + n + nat E) = 2 ^ (62 + nat (- E))"
          by (rule arg_cong)
        then have "(J * 2 ^ n) * 2 ^ nat E = 2 ^ 62 * 2 ^ nat (- E)"
          by (simp only: J_def power_add)
        with hi show ?thesis by simp
      qed
      then have "M \<le> J * 2 ^ n" by simp
      then have "m' \<le> J" unfolding m'_def by (rule rne_le)
      then have "m' * 2 ^ nat e' \<le> J * 2 ^ nat e'" by (intro mult_right_mono) simp_all
      moreover have "J * 2 ^ nat e' = 2 ^ 62"
      proof -
        have "nat (62 - e') + nat e' = 62" using e10 e'pos by simp
        then have "(2::int) ^ (nat (62 - e') + nat e') = 2 ^ 62" by (rule arg_cong)
        then show ?thesis by (simp only: J_def power_add)
      qed
      ultimately have u: "m' * 2 ^ nat e' \<le> 2 ^ 62" by simp
      have "0 \<le> m'" using m52 by (smt (verit) zero_le_power)
      with l u ne show ?thesis by simp
    qed
    then have nov: "\<not> (m' \<noteq> 0 \<and> 1024 < bitlen \<bar>m'\<bar> + e')" using no_overflow by blast
    have "f64_round M E = Finite m' e'"
      unfolding m'_def e'_def n_def
      by (rule f64_round_big [OF k_def False nov [unfolded m'_def e'_def n_def]])
    with B show ?thesis by blast
  qed
qed


lemma val_ge_iff:
  "(of_int a :: rat) \<le> of_int M * (if 0 \<le> e then 2 ^ nat e else 1 / 2 ^ nat (- e))
     \<longleftrightarrow> a * 2 ^ nat (- e) \<le> M * 2 ^ nat e"
proof (cases "0 \<le> e")
  case True
  have "(of_int a :: rat) \<le> of_int (M * 2 ^ nat e) \<longleftrightarrow> a \<le> M * 2 ^ nat e"
    by (rule of_int_le_iff)
  then show ?thesis using True by simp
next
  case False
  have "(of_int (a * 2 ^ nat (- e)) :: rat) \<le> of_int M \<longleftrightarrow> a * 2 ^ nat (- e) \<le> M"
    by (rule of_int_le_iff)
  then show ?thesis using False by (simp add: pos_le_divide_eq)
qed

lemma val_le_iff:
  "of_int M * (if 0 \<le> e then 2 ^ nat e else 1 / 2 ^ nat (- e)) \<le> (of_int a :: rat)
     \<longleftrightarrow> M * 2 ^ nat e \<le> a * 2 ^ nat (- e)"
proof (cases "0 \<le> e")
  case True
  have "(of_int (M * 2 ^ nat e) :: rat) \<le> of_int a \<longleftrightarrow> M * 2 ^ nat e \<le> a"
    by (rule of_int_le_iff)
  then show ?thesis using True by simp
next
  case False
  have "(of_int M :: rat) \<le> of_int (a * 2 ^ nat (- e)) \<longleftrightarrow> M \<le> a * 2 ^ nat (- e)"
    by (rule of_int_le_iff)
  then show ?thesis using False by (simp add: pos_divide_le_eq)
qed

lemma scale_bounds:
  assumes d0: "0 \<le> d" and d53: "d < 2 ^ 53"
    and v1: "1 \<le> f64_val mult"
    and v62: "of_int d * f64_val mult \<le> 2 ^ 62"
  shows "d \<le> scale impl d mult \<and> scale impl d mult \<le> 2 ^ 62"
proof -
  obtain mm me where mult: "mult = Finite mm me"
    using v1 by (cases mult) simp_all
  have "(of_int 1 :: rat) \<le> of_int mm * (if 0 \<le> me then 2 ^ nat me else 1 / 2 ^ nat (- me))"
    using v1 by (simp add: mult)
  then have i1: "1 * 2 ^ nat (- me) \<le> mm * 2 ^ nat me" by (simp only: val_ge_iff)
  have "d * (1 * 2 ^ nat (- me)) \<le> d * (mm * 2 ^ nat me)"
    using i1 d0 by (rule mult_left_mono)
  then have lo: "d * 2 ^ nat (- me) \<le> (d * mm) * 2 ^ nat me" by (simp add: mult.assoc)
  have "of_int (d * mm) * (if 0 \<le> me then 2 ^ nat me else 1 / 2 ^ nat (- me)) \<le> (of_int (2 ^ 62) :: rat)"
    using v62 by (simp add: mult mult.assoc)
  then have hi: "(d * mm) * 2 ^ nat me \<le> 2 ^ 62 * 2 ^ nat (- me)" by (simp only: val_le_iff)
  have d53': "d \<le> 2 ^ 53" using d53 by simp
  obtain m' e' where r: "f64_round (d * mm) me = Finite m' e'" and m0: "0 \<le> m'"
    and lo': "d * 2 ^ nat (- e') \<le> m' * 2 ^ nat e'"
    and hi': "m' * 2 ^ nat e' \<le> 2 ^ 62 * 2 ^ nat (- e')"
    using round_core [OF d0 d53' lo hi] by blast
  have tb: "d \<le> trunc_pow2 m' e' \<and> trunc_pow2 m' e' \<le> 2 ^ 62"
    using m0 lo' hi' by (rule trunc_bounds)
  then have rng: "int64_range (trunc_pow2 m' e')" using d0 by (simp add: int64_range_def)
  have "f64_of_int d = Finite d 0"
    unfolding f64_of_int_def using d0 d53 by (intro f64_round_exact) simp_all
  then have "scale impl d mult = trunc_pow2 m' e'"
    using r rng by (simp add: scale_def mult)
  with tb show ?thesis by simp
qed

lemma Next_unfold:
  "Next impl b =
     (current b, b\<lparr>current := min (scale impl (current b) (multiplier b)) (max_delay b)\<rparr>)"
  by (simp add: Next_def Let_def min_def)

lemma Next_seq_bounds:
  assumes "0 \<le> current b" "current b \<le> max_delay b" "max_delay b < 2 ^ 53"
    and "1 \<le> f64_val (multiplier b)"
    and "of_int (max_delay b) * f64_val (multiplier b) \<le> 2 ^ 62"
  shows "sorted (Next_seq impl b n) \<and> (\<forall>d \<in> set (Next_seq impl b n). current b \<le> d \<and> d \<le> max_delay b)"
  using assms
proof (induction n arbitrary: b)
  case 0
  then show ?case by simp
next
  case (Suc n)
  let ?s = "scale impl (current b) (multiplier b)"
  let ?b' = "b\<lparr>current := min ?s (max_delay b)\<rparr>"
  have v0: "0 \<le> f64_val (multiplier b)" using Suc.prems(4) by simp
  have "(of_int (current b) :: rat) \<le> of_int (max_delay b)" using Suc.prems(2) by simp
  then have "of_int (current b) * f64_val (multiplier b) \<le> of_int (max_delay b) * f64_val (multiplier b)"
    using v0 by (rule mult_right_mono)
  then have "of_int (current b) * f64_val (multiplier b) \<le> 2 ^ 62"
    using Suc.prems(5) by (rule order_trans)
  moreover have "current b < 2 ^ 53" using Suc.prems(2,3) by simp
  ultimately have sb: "current b \<le> ?s"
    using scale_bounds [OF Suc.prems(1) _ Suc.prems(4)] by blast
  have N: "Next impl b = (current b, ?b')" by (simp add: Next_unfold)
  have c': "current b \<le> current ?b'" "current ?b' \<le> max_delay ?b'" using sb Suc.prems(2) by simp_all
  have IH: "sorted (Next_seq impl ?b' n) \<and> (\<forall>d \<in> set (Next_seq impl ?b' n). current ?b' \<le> d \<and> d \<le> max_delay ?b')"
    using Suc.prems c' by (intro Suc.IH) simp_all
  show ?case using IH c' Suc.prems(2) by (auto simp add: N)
qed

lemma neg_div_exact:
  fixes m d :: int
  assumes "m mod d = 0"
  shows "- ((- m) div d) = m div d"
proof -
  from assms obtain q where q: "m = d * q" by (metis mod_eq_0_iff_dvd dvd_def)
  then have "- m = d * (- q)" by simp
  then have "(- m) div d = - q" if "d \<noteq> 0" using that by (metis nonzero_mult_div_cancel_left)
  moreover have "m div d = q" if "d \<noteq> 0" using that q by simp
  ultimately show ?thesis by (cases "d = 0") simp_all
qed

lemma rne_exact: "rne (a * 2 ^ k) k = a"
  by (simp add: rne_def Let_def)

lemma trunc_exact:
  assumes "m * 2 ^ nat e = p * 2 ^ nat (- e)"
  shows "trunc_pow2 m e = p"
proof (cases "0 \<le> e")
  case True
  then show ?thesis using assms by (simp add: trunc_pow2_def)
next
  case False
  then have m: "m = p * 2 ^ nat (- e)" using assms by simp
  then have "m mod 2 ^ nat (- e) = 0" by simp
  then have "- ((- m) div 2 ^ nat (- e)) = m div 2 ^ nat (- e)" by (rule neg_div_exact)
  moreover have "m div 2 ^ nat (- e) = p" using m by simp
  ultimately show ?thesis using False by (simp add: trunc_pow2_def)
qed

lemma round_exact:
  fixes M E p :: int
  assumes p53: "\<bar>p\<bar> < 2 ^ 53"
    and v: "M * 2 ^ nat E = p * 2 ^ nat (- E)"
  shows "\<exists>m' e'. f64_round M E = Finite m' e' \<and> m' * 2 ^ nat e' = p * 2 ^ nat (- e')"
proof -
  have av: "\<bar>M\<bar> * 2 ^ nat E = \<bar>p\<bar> * 2 ^ nat (- E)"
  proof -
    have "\<bar>M * 2 ^ nat E\<bar> = \<bar>p * 2 ^ nat (- E)\<bar>" using v by simp
    then show ?thesis by (simp add: abs_mult)
  qed
  have nov: "\<not> (m \<noteq> 0 \<and> 1024 < bitlen \<bar>m\<bar> + e)"
    if "m * 2 ^ nat e = p * 2 ^ nat (- e)" for m e :: int
  proof -
    have "\<bar>m * 2 ^ nat e\<bar> = \<bar>p * 2 ^ nat (- e)\<bar>" using that by simp
    then have "\<bar>m\<bar> * 2 ^ nat e = \<bar>p\<bar> * 2 ^ nat (- e)" by (simp add: abs_mult)
    moreover have "\<bar>p\<bar> * 2 ^ nat (- e) \<le> 2 ^ 62 * 2 ^ nat (- e)"
      using p53 by (intro mult_right_mono) simp_all
    ultimately have "\<bar>m\<bar> * 2 ^ nat e \<le> 2 ^ 62 * 2 ^ nat (- e)" by simp
    then have "\<not> (\<bar>m\<bar> \<noteq> 0 \<and> 1024 < bitlen \<bar>\<bar>m\<bar>\<bar> + e)"
      by (intro no_overflow) simp_all
    then show ?thesis by simp
  qed
  define k where "k = max (bitlen \<bar>M\<bar> - 53) (- 1074 - E)"
  show ?thesis
  proof (cases "k \<le> 0")
    case True
    then have "f64_round M E = Finite M E"
      unfolding k_def using nov [OF v] by (rule f64_round_small)
    then show ?thesis using v by blast
  next
    case False
    define n where "n = nat (- E)"
    have "\<bar>M\<bar> * 1 \<le> \<bar>M\<bar> * 2 ^ nat E" by (intro mult_left_mono) simp_all
    also have "\<dots> = \<bar>p\<bar> * 2 ^ n" using av by (simp add: n_def)
    also have "\<dots> < 2 ^ 53 * 2 ^ n" using p53 by (intro mult_strict_right_mono) simp_all
    finally have "\<bar>M\<bar> < 2 ^ (53 + n)" by (simp add: power_add)
    then have "bitlen \<bar>M\<bar> \<le> int (53 + n)"
      by (simp add: bitlen_le_iff_power nat_add_distrib)
    then have kn: "k \<le> int n" by (simp add: k_def n_def)
    then have Eneg: "E < 0" using False by (auto simp add: n_def split: if_splits)
    then have M: "M = p * 2 ^ n" using v by (simp add: n_def)
    define j where "j = nat k"
    have jn: "j \<le> n" "k = int j" using kn False by (simp_all add: j_def)
    have "(2::int) ^ n = 2 ^ (n - j) * 2 ^ j" using jn by (simp add: power_add [symmetric])
    then have "M = (p * 2 ^ (n - j)) * 2 ^ j" using M by simp
    then have r: "rne M j = p * 2 ^ (n - j)" by (simp only: rne_exact)
    have e': "nat (E + k) = 0" "nat (- (E + k)) = n - j" "nat (- E - k) = n - j"
      using jn Eneg by (simp_all add: n_def)
    have rel: "rne M (nat k) * 2 ^ nat (E + k) = p * 2 ^ nat (- (E + k))"
      using r by (simp add: e' j_def [symmetric])
    have "f64_round M E = Finite (rne M (nat k)) (E + k)"
      using k_def False nov [OF rel] by (rule f64_round_big)
    then show ?thesis using rel by blast
  qed
qed

lemma val_eq_iff:
  "of_int M * (if 0 \<le> e then 2 ^ nat e else 1 / 2 ^ nat (- e)) = (of_int a :: rat)
     \<longleftrightarrow> M * 2 ^ nat e = a * 2 ^ nat (- e)"
proof -
  have L: "x = y \<longleftrightarrow> x \<le> y \<and> y \<le> x" for x y :: rat by auto
  have R: "x = y \<longleftrightarrow> x \<le> y \<and> y \<le> x" for x y :: int by auto
  show ?thesis
    using val_ge_iff [of a M e] val_le_iff [of M e a] by (simp only: L R)
qed

lemma scale_exact:
  assumes c53: "\<bar>c\<bar> < 2 ^ 53" and p53: "\<bar>p\<bar> < 2 ^ 53"
    and v: "of_int c * f64_val (Finite mm me) = (of_int p :: rat)"
  shows "scale impl c (Finite mm me) = p"
proof -
  have "of_int (c * mm) * (if 0 \<le> me then 2 ^ nat me else 1 / 2 ^ nat (- me)) = (of_int p :: rat)"
    using v by (simp add: mult.assoc)
  then have i: "(c * mm) * 2 ^ nat me = p * 2 ^ nat (- me)" by (simp only: val_eq_iff)
  obtain m' e' where r: "f64_round (c * mm) me = Finite m' e'"
    and rel: "m' * 2 ^ nat e' = p * 2 ^ nat (- e')"
    using round_exact [OF p53 i] by blast
  have t: "trunc_pow2 m' e' = p" using rel by (rule trunc_exact)
  have rng: "int64_range p" using p53 by (simp add: int64_range_def abs_less_iff)
  have "f64_of_int c = Finite c 0"
    unfolding f64_of_int_def using c53 by (intro f64_round_exact) simp_all
  then show ?thesis using r t rng by (simp add: scale_def)
qed

lemma Next_exact:
  assumes "multiplier b = Finite mm me" "\<bar>current b\<bar> < 2 ^ 53" "\<bar>p\<bar> < 2 ^ 53"
    and "of_int (current b) * f64_val (Finite mm me) = (of_int p :: rat)"
  shows "Next impl b = (current b, b\<lparr>current := min p (max_delay b)\<rparr>)
         \<and> (of_int (fst (Next impl b)), of_int (current (snd (Next impl b)))) = Next_spec b"
proof -
  have s: "scale impl (current b) (Finite mm me) = p"
    using assms(2,3,4) by (rule scale_exact)
  have "(of_int (min p (max_delay b)) :: rat) = min (of_int p) (of_int (max_delay b))"
    by (simp add: min_def)
  then show ?thesis using assms(1,4) by (simp add: Next_unfold s Next_spec_def)
qed

lemma scale_double:
  assumes "0 \<le> d" "d < 2 ^ 52"
  shows "scale impl d (Finite 1 1) = 2 * d"
  using assms
  by (simp add: scale_def f64_of_int_def f64_round_exact trunc_pow2_def int64_range_def)

lemma initial_Next_iter: "initial (Next_iter impl b k) = initial b"
  by (induction k arbitrary: b) (simp_all add: Next_unfold)

lemma Next_capped:
  "Next impl \<lparr>initial = i, max_delay = 1000000000, multiplier = Finite 1 1, current = 1000000000\<rparr>
     = (1000000000, \<lparr>initial = i, max_delay = 1000000000, multiplier = Finite 1 1, current = 1000000000\<rparr>)"
  by (simp add: Next_def scale_double)

lemma Next_seq_capped:
  "Next_seq impl \<lparr>initial = i, max_delay = 1000000000, multiplier = Finite 1 1, current = 1000000000\<rparr> n
     = replicate n 1000000000"
  by (induction n) (simp_all add: Next_capped)

lemma Next_seq_add:
  "Next_seq impl b (m + n) = Next_seq impl b m @ Next_seq impl (Next_iter impl b m) n"
  by (induction m arbitrary: b) (simp_all split: prod.splits)

lemma Next_iter_5:
  "Next_iter impl (newBackoff (100 * Millisecond) (1000 * Millisecond) (Finite 1 1)) 5
     = \<lparr>initial = 100000000, max_delay = 1000000000, multiplier = Finite 1 1, current = 1000000000\<rparr>"
  by (simp add: numeral_eq_Suc Next_def newBackoff_def Millisecond_def scale_double)

lemma Next_seq_5:
  "Next_seq impl (newBackoff (100 * Millisecond) (1000 * Millisecond) (Finite 1 1)) 5
     = [100000000, 200000000, 400000000, 800000000, 1000000000]"
  by (simp add: numeral_eq_Suc Next_def newBackoff_def Millisecond_def scale_double)


subsection \<open>Claims about the backoff calculator\<close>

text \<open>
  C4 as stated fails in its general clause: the code multiplies in float64 and truncates,
  so the new \<open>current\<close> is not the minimum of the product and the maximum when the
  delay is above \<open>2 ^ 53\<close> nanoseconds (the conversion rounds), when the product is not
  an integer (3ns times 1.5 gives 4ns) and when the product does not fit an int64.
\<close>

theorem backoff_product_counterexample:
  "current (snd (Next amd64_conv (newBackoff (2 ^ 53 + 1) (2 ^ 54) (Finite 1 0)))) = 2 ^ 53
   \<and> snd (Next_spec (newBackoff (2 ^ 53 + 1) (2 ^ 54) (Finite 1 0))) = 2 ^ 53 + 1
   \<and> current (snd (Next amd64_conv (newBackoff 3 10 (Finite 3 (- 1))))) = 4
   \<and> snd (Next_spec (newBackoff 3 10 (Finite 3 (- 1)))) = 9 / 2
   \<and> current (snd (Next amd64_conv (newBackoff (2 ^ 62) (2 ^ 62) (Finite 1 2)))) = - (2 ^ 63)
   \<and> snd (Next_spec (newBackoff (2 ^ 62) (2 ^ 62) (Finite 1 2))) = 2 ^ 62
   \<and> of_int (current (snd (Next amd64_conv (newBackoff (2 ^ 53 + 1) (2 ^ 54) (Finite 1 0)))))
       \<noteq> snd (Next_spec (newBackoff (2 ^ 53 + 1) (2 ^ 54) (Finite 1 0)))"
  by code_simp

text \<open>
  C4 (amended). With initial 100ms, max 1000ms and multiplier 2, the calls of \<open>Next\<close>
  return 100, 200, 400, 800, 1000 and then 1000 milliseconds for ever; after a \<open>Reset\<close>
  at any point the next call returns 100ms. In general, whenever the multiplier is
  finite, the current delay is below \<open>2 ^ 53\<close> nanoseconds in magnitude and its product
  with the multiplier is an integer below \<open>2 ^ 53\<close> in magnitude, \<open>Next\<close> returns the
  current delay and then sets \<open>current\<close> to the minimum of that product and the
  maximum, as the specification words it; \<open>Reset\<close> sets \<open>current\<close> back to \<open>initial\<close>
  and changes nothing else, so that the next call returns \<open>initial\<close>.
\<close>

theorem backoff_sequence:
  "Next_seq impl (newBackoff (100 * Millisecond) (1000 * Millisecond) (Finite 1 1)) (5 + n)
     = [100 * Millisecond, 200 * Millisecond, 400 * Millisecond, 800 * Millisecond,
        1000 * Millisecond] @ replicate n (1000 * Millisecond)
   \<and> fst (Next impl (Reset (Next_iter impl
          (newBackoff (100 * Millisecond) (1000 * Millisecond) (Finite 1 1)) k)))
     = 100 * Millisecond
   \<and> (multiplier b = Finite mm me \<and> \<bar>current b\<bar> < 2 ^ 53 \<and> \<bar>p\<bar> < 2 ^ 53
        \<and> of_int (current b) * f64_val (Finite mm me) = (of_int p :: rat)
        \<longrightarrow> Next impl b = (current b, b\<lparr>current := min p (max_delay b)\<rparr>)
            \<and> (of_int (fst (Next impl b)), of_int (current (snd (Next impl b)))) = Next_spec b)
   \<and> Reset b = b\<lparr>current := initial b\<rparr>
   \<and> fst (Next impl (Reset b)) = initial b"
proof -
  have A: "fst (Next impl (Reset (Next_iter impl
          (newBackoff (100 * Millisecond) (1000 * Millisecond) (Finite 1 1)) k)))
     = 100 * Millisecond"
    by (simp add: Next_unfold Reset_def initial_Next_iter) (simp add: newBackoff_def)
  have B: "Next_seq impl (newBackoff (100 * Millisecond) (1000 * Millisecond) (Finite 1 1)) (5 + n)
     = [100 * Millisecond, 200 * Millisecond, 400 * Millisecond, 800 * Millisecond,
        1000 * Millisecond] @ replicate n (1000 * Millisecond)"
    by (simp only: Next_seq_add Next_iter_5 Next_seq_5 Next_seq_capped) (simp add: Millisecond_def)
  have C: "Next impl b = (current b, b\<lparr>current := min p (max_delay b)\<rparr>)
            \<and> (of_int (fst (Next impl b)), of_int (current (snd (Next impl b)))) = Next_spec b"
    if "multiplier b = Finite mm me" "\<bar>current b\<bar> < 2 ^ 53" "\<bar>p\<bar> < 2 ^ 53"
       "of_int (current b) * f64_val (Finite mm me) = (of_int p :: rat)"
    using that by (rule Next_exact)
  have D: "fst (Next impl (Reset b)) = initial b"
    by (simp add: Next_unfold Reset_def)
  have E: "Reset b = b\<lparr>current := initial b\<rparr>" by (rule Reset_def)
  show ?thesis using A B C D E by blast
qed

text \<open>Doubling 100ms, and 200ms times 1.5.\<close>

theorem backoff_sequence_witness:
  "Next amd64_conv (newBackoff 100000000 1000000000 (Finite 1 1))
     = (100000000, (newBackoff 100000000 1000000000 (Finite 1 1))\<lparr>current := 200000000\<rparr>)
   \<and> Next_spec (newBackoff 100000000 1000000000 (Finite 1 1)) = (100000000, 200000000)
   \<and> Next amd64_conv ((newBackoff 100000000 1000000000 (Finite 3 (- 1)))\<lparr>current := 200000000\<rparr>)
     = (200000000, (newBackoff 100000000 1000000000 (Finite 3 (- 1)))\<lparr>current := 300000000\<rparr>)"
proof -
  let ?b1 = "newBackoff 100000000 1000000000 (Finite 1 1)"
  let ?b2 = "(newBackoff 100000000 1000000000 (Finite 3 (- 1)))\<lparr>current := 200000000\<rparr>"
  have h1: "multiplier ?b1 = Finite 1 1 \<and> \<bar>current ?b1\<bar> < 2 ^ 53 \<and> \<bar>200000000 :: int\<bar> < 2 ^ 53
      \<and> of_int (current ?b1) * f64_val (Finite 1 1) = (of_int 200000000 :: rat)"
    by (simp add: newBackoff_def)
  have h2: "multiplier ?b2 = Finite 3 (- 1) \<and> \<bar>current ?b2\<bar> < 2 ^ 53 \<and> \<bar>300000000 :: int\<bar> < 2 ^ 53
      \<and> of_int (current ?b2) * f64_val (Finite 3 (- 1)) = (of_int 300000000 :: rat)"
    by (simp add: newBackoff_def)
  have T1: "Next amd64_conv ?b1 = (current ?b1, ?b1\<lparr>current := min 200000000 (max_delay ?b1)\<rparr>)
      \<and> (of_int (fst (Next amd64_conv ?b1)), of_int (current (snd (Next amd64_conv ?b1))))
          = Next_spec ?b1"
    using backoff_sequence [where impl = amd64_conv and b = ?b1 and mm = 1 and me = 1
        and p = 200000000] h1 by blast
  have T2: "Next amd64_conv ?b2 = (current ?b2, ?b2\<lparr>current := min 300000000 (max_delay ?b2)\<rparr>)"
    using backoff_sequence [where impl = amd64_conv and b = ?b2 and mm = 3 and me = "- 1"
        and p = 300000000] h2 by blast
  have T1a: "Next amd64_conv ?b1 = (current ?b1, ?b1\<lparr>current := min 200000000 (max_delay ?b1)\<rparr>)"
    using T1 by (rule conjunct1)
  have "(of_int (fst (Next amd64_conv ?b1)), of_int (current (snd (Next amd64_conv ?b1))))
          = Next_spec ?b1"
    using T1 by (rule conjunct2)
  then have N: "Next_spec ?b1 = (100000000, 200000000)"
    unfolding T1a by (simp add: newBackoff_def)
  show ?thesis using T1a T2 N by (simp add: newBackoff_def)
qed

text \<open>
  C5 as stated fails: with a negative initial delay the delays decrease, and above
  \<open>2 ^ 53\<close> nanoseconds the conversion to float64 rounds, so that a multiplier of 1 can
  lower the delay.
\<close>

theorem backoff_decreasing_counterexample:
  "(- 1 :: int) \<le> 10 \<and> 1 \<le> f64_val (Finite 1 1)
   \<and> \<not> sorted (Next_seq amd64_conv (newBackoff (- 1) 10 (Finite 1 1)) 2)
   \<and> (2 ^ 53 + 1 :: int) \<le> 2 ^ 54 \<and> 1 \<le> f64_val (Finite 1 0)
   \<and> \<not> sorted (Next_seq amd64_conv (newBackoff (2 ^ 53 + 1) (2 ^ 54) (Finite 1 0)) 2)"
  by code_simp

text \<open>
  C5 (amended). For a calculator with \<open>0 \<le> initial \<le> max < 2 ^ 53\<close> nanoseconds, a
  multiplier of at least 1 and \<open>max * multiplier \<le> 2 ^ 62\<close> (so that every product fits
  an int64), the delays returned by successive calls of \<open>Next\<close> never decrease and never
  exceed \<open>max\<close>.
\<close>

theorem backoff_nondecreasing_bounded:
  assumes "0 \<le> i" "i \<le> mx" "mx < 2 ^ 53"
    and "1 \<le> f64_val mult"
    and "of_int mx * f64_val mult \<le> 2 ^ 62"
  shows "sorted (Next_seq impl (newBackoff i mx mult) n)
         \<and> (\<forall>d \<in> set (Next_seq impl (newBackoff i mx mult) n). d \<le> mx)"
proof -
  have "sorted (Next_seq impl (newBackoff i mx mult) n)
        \<and> (\<forall>d \<in> set (Next_seq impl (newBackoff i mx mult) n).
              current (newBackoff i mx mult) \<le> d \<and> d \<le> max_delay (newBackoff i mx mult))"
    using assms by (intro Next_seq_bounds) (simp_all add: newBackoff_def)
  then show ?thesis by (simp add: newBackoff_def)
qed

theorem backoff_nondecreasing_bounded_witness:
  "sorted (Next_seq amd64_conv (newBackoff 100000000 1000000000 (Finite 1 1)) 6)
   \<and> list_all (\<lambda>d. d \<le> 1000000000)
        (Next_seq amd64_conv (newBackoff 100000000 1000000000 (Finite 1 1)) 6)"
  using backoff_nondecreasing_bounded [of 100000000 1000000000 "Finite 1 1" amd64_conv 6]
  by (simp add: list_all_iff)


subsection \<open>Claims about the connection\<close>


lemma handleCommand_decode:
  "handleCommand lib impl c msg =
     (case decode_command lib impl msg of
        Some cmd \<Rightarrow> try_send cmd c
      | None \<Rightarrow>
          (case marshal lib (Payload msg) of
             (bs, Some e) \<Rightarrow> Return (clog LevelError ''marshal command payload'' c)
           | (bs, None) \<Rightarrow> Return (clog LevelError ''unmarshal command'' c)))"
  by (simp add: handleCommand_def decode_command_def split: prod.splits option.splits sum.splits)

lemma commands_clog [simp]: "commands (clog l s c) = commands c"
  by (simp add: clog_def)

lemma try_send_room:
  assumes "\<not> chan_closed (commands c)" "length (chan_buf (commands c)) < chan_cap (commands c)"
  shows "try_send cmd c =
     Return (clog LevelInfo ''command received''
       (c\<lparr>commands := (commands c)\<lparr>chan_buf := chan_buf (commands c) @ [cmd]\<rparr>\<rparr>))"
  using assms by (simp add: try_send_def Let_def)

lemma try_send_full:
  assumes "\<not> chan_closed (commands c)" "\<not> length (chan_buf (commands c)) < chan_cap (commands c)"
  shows "try_send cmd c = Return (clog LevelWarn ''command channel full, dropping command'' c)"
  using assms by (simp add: try_send_def Let_def)

lemma handleCommand_queue:
  assumes "q_ok c"
  shows "\<exists>c'. handleCommand lib impl c msg = Return c' \<and> q_ok c'
           \<and> chan_buf (commands c') =
               (case decode_command lib impl msg of
                  Some cmd \<Rightarrow> if length (chan_buf (commands c)) < 10
                              then chan_buf (commands c) @ [cmd] else chan_buf (commands c)
                | None \<Rightarrow> chan_buf (commands c))"
proof (cases "decode_command lib impl msg")
  case None
  then show ?thesis using assms
    by (auto simp add: handleCommand_decode q_ok_def split: prod.splits option.splits)
next
  case (Some cmd)
  show ?thesis
  proof (cases "length (chan_buf (commands c)) < 10")
    case True
    then show ?thesis using assms Some
      by (simp add: handleCommand_decode q_ok_def try_send_room)
  next
    case False
    then show ?thesis using assms Some
      by (simp add: handleCommand_decode q_ok_def try_send_full)
  qed
qed

lemma queue_run_fifo:
  assumes "q_ok c"
  shows "\<exists>taken c'. queue_run lib impl c ops = Return (taken, c') \<and> q_ok c'
           \<and> subseq (taken @ chan_buf (commands c')) (chan_buf (commands c) @ arrivals lib impl ops)"
  using assms
proof (induction ops arbitrary: c)
  case Nil
  then show ?case by simp
next
  case (Cons op ops)
  show ?case
  proof (cases op)
    case (Arrive msg)
    obtain c1 where h: "handleCommand lib impl c msg = Return c1" and ok1: "q_ok c1"
      and b1: "chan_buf (commands c1) =
               (case decode_command lib impl msg of
                  Some cmd \<Rightarrow> if length (chan_buf (commands c)) < 10
                              then chan_buf (commands c) @ [cmd] else chan_buf (commands c)
                | None \<Rightarrow> chan_buf (commands c))"
      using handleCommand_queue [OF Cons.prems] by blast
    obtain taken c' where r: "queue_run lib impl c1 ops = Return (taken, c')" and ok': "q_ok c'"
      and s: "subseq (taken @ chan_buf (commands c')) (chan_buf (commands c1) @ arrivals lib impl ops)"
      using Cons.IH [OF ok1] by blast
    have "subseq (chan_buf (commands c1) @ arrivals lib impl ops)
                 (chan_buf (commands c) @ arrivals lib impl (op # ops))"
      using b1 by (auto simp add: Arrive split: option.splits intro: subseq_Cons' list_emb_append_mono)
    with s have "subseq (taken @ chan_buf (commands c')) (chan_buf (commands c) @ arrivals lib impl (op # ops))"
      by (rule subseq_order.trans)
    then show ?thesis using h r ok' by (simp add: Arrive)
  next
    case Take
    show ?thesis
    proof (cases "chan_buf (commands c)")
      case Nil
      then show ?thesis using Cons.IH [OF Cons.prems] by (simp add: Take chan_recv_def)
    next
      case (Cons x xs)
      let ?c1 = "c\<lparr>commands := (commands c)\<lparr>chan_buf := xs\<rparr>\<rparr>"
      have ok1: "q_ok ?c1" using Cons.prems Cons by (simp add: q_ok_def)
      obtain taken c' where r: "queue_run lib impl ?c1 ops = Return (taken, c')" and ok': "q_ok c'"
        and s: "subseq (taken @ chan_buf (commands c')) (chan_buf (commands ?c1) @ arrivals lib impl ops)"
        using Cons.IH [OF ok1] by blast
      then show ?thesis using Cons by (simp add: Take chan_recv_def)
    qed
  qed
qed


lemma waitForWelcome_first_reply:
  "case first_reply lib rd of
     Welcome w \<Rightarrow>
       waitForWelcome lib rd c =
         (None, c\<lparr>serverID := welcome_ServerID w,
                  metricsIntervalSeconds := welcome_MetricsIntervalSeconds w,
                  signingPublicKey := welcome_SigningPublicKey w,
                  commandsEnabled := welcome_CommandsEnabled w\<rparr>)
   | Rejection ep \<Rightarrow>
       waitForWelcome lib rd c =
         (Some (Errorf (''server error: '' @ err_Code ep @ '' - '' @ err_Message ep)), c)
   | ProtocolViolation \<Rightarrow>
       (\<exists>e. waitForWelcome lib rd c = (Some e, c) \<and> \<not> is_server_error e)"
  by (auto simp add: waitForWelcome_def first_reply_def Let_def
           split: sum.splits prod.splits option.splits)

lemma Connect_after_hello:
  assumes "\<not> closed c" "URL (config c) \<noteq> []" "dial env = None" "hello_write env = None"
    and "snd (marshalMessage lib (hello_of (config c))) = None"
  shows "\<exists>c4. Client_Connect lib env c =
           (case waitForWelcome lib (welcome_read env) c4 of
              (Some e, c5) \<Rightarrow> Return (Some (Wrapf ''wait for welcome: '' e), conn_Close c5)
            | (None, c5) \<Rightarrow>
                Return (None, (clog LevelInfo ''connected to control plane'' c5)\<lparr>reading := True\<rparr>))"
  using assms
  by (cases "marshalMessage lib (hello_of (config c))")
     (auto simp add: Client_Connect_def Client_send_def WriteMessage_def Let_def clog_def)

lemma fields_clog [simp]:
  "serverID (clog l s c) = serverID c"
  "metricsIntervalSeconds (clog l s c) = metricsIntervalSeconds c"
  "signingPublicKey (clog l s c) = signingPublicKey c"
  "commandsEnabled (clog l s c) = commandsEnabled c"
  "conn (clog l s c) = conn c" "closed (clog l s c) = closed c"
  by (simp_all add: clog_def)

text \<open>
  C2 (amended). For a \<open>Connect\<close> that gets as far as the handshake (the client is not
  closed, the URL is not empty, the dial and the write of agent_hello succeed), the
  first reply decides the outcome: a welcome whose payload decodes makes \<open>Connect\<close>
  succeed with server id, metrics interval, signing key and commands-enabled taken from
  it; an error frame makes it fail with "wait for welcome: server error: code - message",
  which holds the server's code and message and nothing of the retry hint; any other
  reply (another type, a frame or payload that does not decode, a failed or timed-out
  read) makes it fail with an error that is not of that form.
\<close>

theorem Connect_outcome:
  assumes "\<not> closed c" "URL (config c) \<noteq> []" "dial env = None" "hello_write env = None"
    and "snd (marshalMessage lib (hello_of (config c))) = None"
  shows "case first_reply lib (welcome_read env) of
           Welcome w \<Rightarrow>
             (\<exists>c'. Client_Connect lib env c = Return (None, c')
                \<and> Client_ServerID c' = welcome_ServerID w
                \<and> Client_MetricsInterval c' = welcome_MetricsIntervalSeconds w
                \<and> Client_SigningPublicKey c' = welcome_SigningPublicKey w
                \<and> Client_CommandsEnabled c' = welcome_CommandsEnabled w)
         | Rejection ep \<Rightarrow>
             (\<exists>c'. Client_Connect lib env c =
                Return (Some (Wrapf ''wait for welcome: ''
                  (Errorf (''server error: '' @ err_Code ep @ '' - '' @ err_Message ep))), c'))
         | ProtocolViolation \<Rightarrow>
             (\<exists>e c'. Client_Connect lib env c = Return (Some (Wrapf ''wait for welcome: '' e), c')
                \<and> \<not> is_server_error e)"
proof -
  obtain c4 where C: "Client_Connect lib env c =
           (case waitForWelcome lib (welcome_read env) c4 of
              (Some e, c5) \<Rightarrow> Return (Some (Wrapf ''wait for welcome: '' e), conn_Close c5)
            | (None, c5) \<Rightarrow>
                Return (None, (clog LevelInfo ''connected to control plane'' c5)\<lparr>reading := True\<rparr>))"
    using Connect_after_hello [OF assms] by blast
  show ?thesis
  proof (cases "first_reply lib (welcome_read env)")
    case (Welcome w)
    then show ?thesis
      using waitForWelcome_first_reply [of lib "welcome_read env" c4]
      by (simp add: C Client_ServerID_def Client_MetricsInterval_def Client_SigningPublicKey_def
            Client_CommandsEnabled_def)
  next
    case (Rejection ep)
    then show ?thesis
      using waitForWelcome_first_reply [of lib "welcome_read env" c4] by (simp add: C)
  next
    case ProtocolViolation
    then show ?thesis
      using waitForWelcome_first_reply [of lib "welcome_read env" c4] by (auto simp add: C)
  qed
qed

text \<open>
  C3. A connect either succeeds or rolls back, so that \<open>IsConnected\<close> reports false
  after a failure. The code does not do this: when \<open>Connect\<close> fails after the dial
  succeeded, the transport is closed but the client keeps it, and \<open>IsConnected\<close>
  reports true.
\<close>

theorem failed_handshake_reports_connected:
  assumes "\<not> closed c" "dial env = None" "Client_Connect lib env c = Return (Some e, c')"
  shows "IsConnected c' \<and> (\<exists>k. conn c' = Some k \<and> conn_closed k)"
  using assms
  by (auto simp add: Client_Connect_def Client_send_def WriteMessage_def waitForWelcome_def
        Let_def clog_def conn_Close_def IsConnected_def
        split: if_splits option.splits prod.splits sum.splits)


lemma upd_ServerID:
  "(case x of Some (JString v) \<Rightarrow> r\<lparr>ServerID := v\<rparr> | _ \<Rightarrow> r)
     = r\<lparr>ServerID := (case x of Some (JString v) \<Rightarrow> v | _ \<Rightarrow> ServerID r)\<rparr>"
  by (simp split: option.splits jvalue.splits)

lemma upd_CommandName:
  "(case x of Some (JString v) \<Rightarrow> r\<lparr>CommandName := v\<rparr> | _ \<Rightarrow> r)
     = r\<lparr>CommandName := (case x of Some (JString v) \<Rightarrow> v | _ \<Rightarrow> CommandName r)\<rparr>"
  by (simp split: option.splits jvalue.splits)

lemma upd_Params:
  "(case x of Some (JObject v) \<Rightarrow> r\<lparr>Params := v\<rparr> | _ \<Rightarrow> r)
     = r\<lparr>Params := (case x of Some (JObject v) \<Rightarrow> v | _ \<Rightarrow> Params r)\<rparr>"
  by (simp split: option.splits jvalue.splits)

lemma upd_Nonce:
  "(case x of Some (JString v) \<Rightarrow> r\<lparr>Nonce := v\<rparr> | _ \<Rightarrow> r)
     = r\<lparr>Nonce := (case x of Some (JString v) \<Rightarrow> v | _ \<Rightarrow> Nonce r)\<rparr>"
  by (simp split: option.splits jvalue.splits)

lemma upd_Timestamp:
  "(case x of Some (JNumber v) \<Rightarrow> r\<lparr>Timestamp := f v\<rparr> | _ \<Rightarrow> r)
     = r\<lparr>Timestamp := (case x of Some (JNumber v) \<Rightarrow> f v | _ \<Rightarrow> Timestamp r)\<rparr>"
  by (simp split: option.splits jvalue.splits)

lemma command_of_fields:
  "command_of impl cp =
     \<lparr>ID = cp_ID cp,
      ServerID = (case map_of (cp_SignedPayload cp) ''server_id'' of
                    Some (JString v) \<Rightarrow> v | _ \<Rightarrow> []),
      CommandName = (case map_of (cp_SignedPayload cp) ''command'' of
                       Some (JString v) \<Rightarrow> v | _ \<Rightarrow> []),
      Params = (case map_of (cp_SignedPayload cp) ''params'' of
                  Some (JObject v) \<Rightarrow> v | _ \<Rightarrow> []),
      Nonce = (case map_of (cp_SignedPayload cp) ''nonce'' of
                 Some (JString v) \<Rightarrow> v | _ \<Rightarrow> []),
      Timestamp = (case map_of (cp_SignedPayload cp) ''timestamp'' of
                     Some (JNumber ts) \<Rightarrow> UnixMilli (int64_of_f64 impl ts) | _ \<Rightarrow> ZeroTime),
      Signature = cp_Signature cp,
      RawPayload = cp_SignedPayload cp\<rparr>"
  unfolding command_of_def Let_def
  by (simp only: upd_ServerID upd_CommandName upd_Params upd_Nonce upd_Timestamp)
     (simp cong del: option.case_cong_weak jvalue.case_cong_weak)

lemma int64_of_exact:
  assumes "f64_exact_int ts = Some t" "int64_range t"
  shows "int64_of_f64 impl ts = t"
proof (cases ts)
  case (Finite m e)
  have "trunc_pow2 m e = t"
    using assms(1) by (auto simp add: Finite f64_exact_int_def trunc_pow2_def neg_div_exact split: if_splits)
  then show ?thesis using assms(2) by (simp add: Finite)
qed (use assms in \<open>simp_all add: f64_exact_int_def\<close>)

lemma delivered_after_command:
  assumes w: "loc w = Connected_loop mt" "client (manager w) = Some c" "onCommand (manager w)"
    and c: "reading c" "\<not> closeCh c" "\<not> closed c" "conn c \<noteq> None" "q_ok c"
           "chan_buf (commands c) = []"
    and fr: "unmarshalMessage lib data = Inr msg" "Type msg = ''command''"
            "marshal lib (Payload msg) = (bs, None)" "unmarshalCommand lib bs = Inr cp"
  shows "delivered (manager (run lib impl w [Reader (Inr data), Pick_command]))
           = delivered (manager w) @ [command_of impl cp]"
proof -
  have d: "decode_command lib impl msg = Some (command_of impl cp)"
    using fr by (simp add: decode_command_def)
  have room: "\<not> chan_closed (commands c)" "length (chan_buf (commands c)) < chan_cap (commands c)"
    using c by (simp_all add: q_ok_def)
  let ?c1 = "clog LevelInfo ''command received''
       (c\<lparr>commands := (commands c)\<lparr>chan_buf := chan_buf (commands c) @ [command_of impl cp]\<rparr>\<rparr>)"
  have h: "handleMessage lib impl c msg = Return ?c1"
    using fr d by (simp add: handleMessage_def handleCommand_decode try_send_room [OF room])
  obtain k where k: "conn c = Some k" using c by blast
  have r: "readLoop lib impl c [Inr data] = Return ?c1"
    using c fr h k by (simp add: clog_def)
  have s1: "step lib impl w (Reader (Inr data)) = w\<lparr>manager := (manager w)\<lparr>client := Some ?c1\<rparr>\<rparr>"
    using w c r by (simp add: step_def reader_step_def)
  show ?thesis
    using w c by (simp add: run_def s1) (simp add: step_def runConnected_step_def chan_recv_def clog_def)
qed


lemma q_ok_NewClient: "q_ok (NewClient cfg)"
  by (simp add: q_ok_def NewClient_def)

text \<open>
  C6. The command channel of a new client has capacity 10 and is empty. On a channel
  in that shape \<open>handleCommand\<close> always returns, without blocking or panicking, and keeps
  the shape: a command that arrives while there is room is appended behind the commands
  already queued; one that arrives while the queue is full is dropped with the warning
  "command channel full, dropping command" and the queue is unchanged. A receive takes
  the oldest command, and under any interleaving of arrivals and receives the commands
  taken, followed by those still queued, are arrivals in their order of arrival.
\<close>

theorem command_queue_bounded_fifo:
  assumes "q_ok c"
  shows "q_ok (NewClient cfg :: 'b Client) \<and> chan_buf (commands (NewClient cfg :: 'b Client)) = []
    \<and> (\<exists>c'. handleCommand lib impl c msg = Return c' \<and> q_ok c'
          \<and> (case decode_command lib impl msg of
                Some cmd \<Rightarrow>
                  if length (chan_buf (commands c)) < 10
                  then chan_buf (commands c') = chan_buf (commands c) @ [cmd]
                  else chan_buf (commands c') = chan_buf (commands c)
                       \<and> logger c' = logger c @ [(LevelWarn, ''command channel full, dropping command'')]
              | None \<Rightarrow> chan_buf (commands c') = chan_buf (commands c)))
    \<and> (\<exists>taken c'. queue_run lib impl c ops = Return (taken, c') \<and> q_ok c'
          \<and> subseq (taken @ chan_buf (commands c'))
                    (chan_buf (commands c) @ arrivals lib impl ops))
    \<and> chan_recv (commands c) =
        (case chan_buf (commands c) of
           [] \<Rightarrow> None
         | x # xs \<Rightarrow> Some (x, (commands c)\<lparr>chan_buf := xs\<rparr>))"
proof -
  obtain c' where h: "handleCommand lib impl c msg = Return c'" and ok: "q_ok c'"
    and b: "chan_buf (commands c') =
               (case decode_command lib impl msg of
                  Some cmd \<Rightarrow> if length (chan_buf (commands c)) < 10
                              then chan_buf (commands c) @ [cmd] else chan_buf (commands c)
                | None \<Rightarrow> chan_buf (commands c))"
    using handleCommand_queue [OF assms] by blast
  have l: "logger c' = logger c @ [(LevelWarn, ''command channel full, dropping command'')]"
    if "decode_command lib impl msg = Some cmd" "\<not> length (chan_buf (commands c)) < 10" for cmd
    using that h assms by (simp add: handleCommand_decode q_ok_def try_send_full) (auto simp add: clog_def)
  have "case decode_command lib impl msg of
          Some cmd \<Rightarrow>
            if length (chan_buf (commands c)) < 10
            then chan_buf (commands c') = chan_buf (commands c) @ [cmd]
            else chan_buf (commands c') = chan_buf (commands c)
                 \<and> logger c' = logger c @ [(LevelWarn, ''command channel full, dropping command'')]
        | None \<Rightarrow> chan_buf (commands c') = chan_buf (commands c)"
    using b l by (simp split: option.splits)
  with h ok have A: "\<exists>c'. handleCommand lib impl c msg = Return c' \<and> q_ok c'
          \<and> (case decode_command lib impl msg of
                Some cmd \<Rightarrow>
                  if length (chan_buf (commands c)) < 10
                  then chan_buf (commands c') = chan_buf (commands c) @ [cmd]
                  else chan_buf (commands c') = chan_buf (commands c)
                       \<and> logger c' = logger c @ [(LevelWarn, ''command channel full, dropping command'')]
              | None \<Rightarrow> chan_buf (commands c') = chan_buf (commands c))"
    by blast
  have B: "chan_buf (commands (NewClient cfg :: 'b Client)) = []" by (simp add: NewClient_def)
  show ?thesis
    using A B q_ok_NewClient queue_run_fifo [OF assms] by (simp add: chan_recv_def)
qed

text \<open>
  A full queue: ten commands are queued, the eleventh arrives and is dropped with the
  warning, and two receives take the two oldest, leaving the other eight in order.
\<close>

theorem command_queue_bounded_fifo_witness:
  "q_ok full_client
   \<and> map ID (chan_buf (commands full_client)) = ten_ids
   \<and> (\<exists>c'. handleCommand tree_lib amd64_conv full_client (command_with_id ''c11'') = Return c'
          \<and> chan_buf (commands c') = chan_buf (commands full_client)
          \<and> logger c' = logger full_client
               @ [(LevelWarn, ''command channel full, dropping command'')])
   \<and> (\<exists>taken c'. queue_run tree_lib amd64_conv full_client
                     [Arrive (command_with_id ''c11''), Take, Take] = Return (taken, c')
          \<and> q_ok c'
          \<and> subseq (taken @ chan_buf (commands c'))
                    (chan_buf (commands full_client)
                     @ arrivals tree_lib amd64_conv [Arrive (command_with_id ''c11''), Take, Take])
          \<and> map ID taken = [''c01'', ''c02'']
          \<and> map ID (chan_buf (commands c'))
              = [''c03'', ''c04'', ''c05'', ''c06'', ''c07'', ''c08'', ''c09'', ''c10''])"
proof -
  have h: "q_ok full_client" by code_simp
  have ids: "map ID (chan_buf (commands full_client)) = ten_ids" by code_simp
  have len: "\<not> length (chan_buf (commands full_client)) < 10" by code_simp
  have "case decode_command tree_lib amd64_conv (command_with_id ''c11'') of
          Some cmd \<Rightarrow> True | None \<Rightarrow> False"
    by code_simp
  then obtain cmd where d: "decode_command tree_lib amd64_conv (command_with_id ''c11'') = Some cmd"
    by (auto split: option.splits)
  have ev: "case queue_run tree_lib amd64_conv full_client
                   [Arrive (command_with_id ''c11''), Take, Take] of
              Return (taken, c') \<Rightarrow>
                map ID taken = [''c01'', ''c02'']
                \<and> map ID (chan_buf (commands c'))
                    = [''c03'', ''c04'', ''c05'', ''c06'', ''c07'', ''c08'', ''c09'', ''c10'']
            | _ \<Rightarrow> False"
    by code_simp
  note T = command_queue_bounded_fifo [OF h, of test_config tree_lib amd64_conv
      "command_with_id ''c11''" "[Arrive (command_with_id ''c11''), Take, Take]"]
  have A: "\<exists>c'. handleCommand tree_lib amd64_conv full_client (command_with_id ''c11'') = Return c'
          \<and> chan_buf (commands c') = chan_buf (commands full_client)
          \<and> logger c' = logger full_client
               @ [(LevelWarn, ''command channel full, dropping command'')]"
    using T len by (simp add: d) blast
  obtain taken c' where q: "queue_run tree_lib amd64_conv full_client
        [Arrive (command_with_id ''c11''), Take, Take] = Return (taken, c')"
    and ok: "q_ok c'"
    and sub: "subseq (taken @ chan_buf (commands c'))
                (chan_buf (commands full_client)
                 @ arrivals tree_lib amd64_conv [Arrive (command_with_id ''c11''), Take, Take])"
    using T by blast
  have C: "map ID taken = [''c01'', ''c02'']
        \<and> map ID (chan_buf (commands c'))
            = [''c03'', ''c04'', ''c05'', ''c06'', ''c07'', ''c08'', ''c09'', ''c10'']"
    using ev by (simp only: q ret.case prod.case)
  have B: "\<exists>taken c'. queue_run tree_lib amd64_conv full_client
                     [Arrive (command_with_id ''c11''), Take, Take] = Return (taken, c')
          \<and> q_ok c'
          \<and> subseq (taken @ chan_buf (commands c'))
                    (chan_buf (commands full_client)
                     @ arrivals tree_lib amd64_conv [Arrive (command_with_id ''c11''), Take, Take])
          \<and> map ID taken = [''c01'', ''c02'']
          \<and> map ID (chan_buf (commands c'))
              = [''c03'', ''c04'', ''c05'', ''c06'', ''c07'', ''c08'', ''c09'', ''c10'']"
    by (intro exI [of _ taken] exI [of _ c'] conjI)
       (rule q ok sub C [THEN conjunct1] C [THEN conjunct2])+
  show ?thesis by (intro conjI) (rule h ids A B)+
qed

text \<open>
  C7. When the read task of a connected client reads a command frame and the run loop
  then receives from the command channel, the handler is called with a command whose
  id and signature are those of the frame, whose raw payload is the signed payload
  unchanged, and whose server id, command, params and nonce are the entries of the
  signed payload (the zero value where an entry is absent or of another type); its
  timestamp is \<open>time.UnixMilli\<close> of the signed payload's number, truncated, which for a
  number that is an integer within int64 is that integer.
\<close>

theorem command_delivered_faithfully:
  assumes "loc w = Connected_loop mt" "client (manager w) = Some c" "onCommand (manager w)"
    and "reading c" "\<not> closeCh c" "\<not> closed c" "conn c \<noteq> None" "q_ok c"
        "chan_buf (commands c) = []"
    and "unmarshalMessage lib data = Inr msg" "Type msg = ''command''"
        "marshal lib (Payload msg) = (bs, None)" "unmarshalCommand lib bs = Inr cp"
  shows "\<exists>cmd. delivered (manager (run lib impl w [Reader (Inr data), Pick_command]))
                 = delivered (manager w) @ [cmd]
     \<and> ID cmd = cp_ID cp \<and> Signature cmd = cp_Signature cp
     \<and> RawPayload cmd = cp_SignedPayload cp
     \<and> ServerID cmd = (case map_of (cp_SignedPayload cp) ''server_id'' of
                          Some (JString v) \<Rightarrow> v | _ \<Rightarrow> [])
     \<and> CommandName cmd = (case map_of (cp_SignedPayload cp) ''command'' of
                             Some (JString v) \<Rightarrow> v | _ \<Rightarrow> [])
     \<and> Params cmd = (case map_of (cp_SignedPayload cp) ''params'' of
                        Some (JObject v) \<Rightarrow> v | _ \<Rightarrow> [])
     \<and> Nonce cmd = (case map_of (cp_SignedPayload cp) ''nonce'' of
                       Some (JString v) \<Rightarrow> v | _ \<Rightarrow> [])
     \<and> Timestamp cmd = (case map_of (cp_SignedPayload cp) ''timestamp'' of
                           Some (JNumber ts) \<Rightarrow> UnixMilli (int64_of_f64 impl ts)
                         | _ \<Rightarrow> ZeroTime)
     \<and> (\<forall>ts t. f64_exact_int ts = Some t \<and> int64_range t \<longrightarrow> int64_of_f64 impl ts = t)"
proof -
  have "delivered (manager (run lib impl w [Reader (Inr data), Pick_command]))
          = delivered (manager w) @ [command_of impl cp]"
    using assms by (rule delivered_after_command)
  moreover have "\<forall>ts t. f64_exact_int ts = Some t \<and> int64_range t \<longrightarrow> int64_of_f64 impl ts = t"
    using int64_of_exact by blast
  ultimately show ?thesis
    by (intro exI [of _ "command_of impl cp"]) (simp add: command_of_fields)
qed

lemma connected_world_facts:
  "loc connected_world = Connected_loop True"
  "client (manager connected_world) = Some connected_client"
  "onCommand (manager connected_world)"
  "reading connected_client" "\<not> closeCh connected_client" "\<not> closed connected_client"
  "conn connected_client \<noteq> None" "q_ok connected_client"
  "chan_buf (commands connected_client) = []"
  "delivered (manager connected_world) = []"
  by code_simp+

text \<open>The command frame of the test scenario, delivered after the welcome.\<close>

theorem command_delivered_faithfully_witness:
  "\<exists>cmd. delivered (manager (run tree_lib amd64_conv connected_world
                                [Reader (Inr command_frame), Pick_command])) = [cmd]
     \<and> ID cmd = ''cmd_123'' \<and> ServerID cmd = ''srv_123'' \<and> CommandName cmd = ''vacuum_analyze''
     \<and> Nonce cmd = ''abc-123'' \<and> Timestamp cmd = UnixMilli 1700000000000
     \<and> Signature cmd = ''base64signature''"
proof -
  have f: "unmarshalMessage tree_lib command_frame = Inr command_message"
    "Type command_message = ''command''"
    "marshal tree_lib (Payload command_message) =
       (JObject [(''id'', JString ''cmd_123''),
                 (''signed_payload'', JObject [(''server_id'', JString ''srv_123''),
                                               (''command'', JString ''vacuum_analyze''),
                                               (''nonce'', JString ''abc-123''),
                                               (''timestamp'', JNumber (Finite 1700000000000 0))]),
                 (''signature'', JString ''base64signature'')], None)"
    "unmarshalCommand tree_lib (JObject [(''id'', JString ''cmd_123''),
                 (''signed_payload'', JObject [(''server_id'', JString ''srv_123''),
                                               (''command'', JString ''vacuum_analyze''),
                                               (''nonce'', JString ''abc-123''),
                                               (''timestamp'', JNumber (Finite 1700000000000 0))]),
                 (''signature'', JString ''base64signature'')])
       = Inr \<lparr>cp_ID = ''cmd_123'',
                cp_SignedPayload = [(''server_id'', JString ''srv_123''),
                                    (''command'', JString ''vacuum_analyze''),
                                    (''nonce'', JString ''abc-123''),
                                    (''timestamp'', JNumber (Finite 1700000000000 0))],
                cp_Signature = ''base64signature''\<rparr>"
    by (simp_all add: tree_lib_def command_frame_def command_message_def)
  show ?thesis
    using command_delivered_faithfully [OF connected_world_facts(1-9) f, of amd64_conv]
    by (simp add: connected_world_facts(10) trunc_pow2_def int64_range_def) blast
qed


text \<open>The three kinds of reply in the test scenario.\<close>

theorem Connect_outcome_witness:
  "(\<exists>c'. Client_Connect tree_lib (peer welcome_frame) (NewClient test_config) = Return (None, c')
      \<and> Client_ServerID c' = ''srv_123'' \<and> Client_MetricsInterval c' = 30
      \<and> Client_SigningPublicKey c' = [] \<and> Client_CommandsEnabled c')
   \<and> (\<exists>c'. Client_Connect tree_lib (peer (error_frame 5)) (NewClient test_config)
         = Return (Some (Wrapf ''wait for welcome: ''
                     (Errorf ''server error: auth_failed - invalid token'')), c'))
   \<and> (\<exists>e c'. Client_Connect tree_lib (peer command_frame) (NewClient test_config)
         = Return (Some (Wrapf ''wait for welcome: '' e), c') \<and> \<not> is_server_error e)"
proof -
  have h: "\<not> closed (NewClient test_config :: jvalue Client)"
    "URL (config (NewClient test_config :: jvalue Client)) \<noteq> []"
    "dial (peer r) = None" "hello_write (peer r) = None"
    "snd (marshalMessage tree_lib (hello_of (config (NewClient test_config :: jvalue Client)))) = None"
    for r
    by (simp_all add: NewClient_def test_config_def WithDefaults_def peer_def tree_lib_def
          tree_marshalMessage_def Let_def)
  have w: "first_reply tree_lib (welcome_read (peer welcome_frame))
             = Welcome \<lparr>welcome_ServerID = ''srv_123'', welcome_MetricsIntervalSeconds = 30,
                        welcome_SigningPublicKey = [], welcome_CommandsEnabled = True\<rparr>"
    by (simp add: first_reply_def peer_def welcome_frame_def tree_lib_def f64_exact_int_def
          int64_range_def)
  have e: "first_reply tree_lib (welcome_read (peer (error_frame 5)))
             = Rejection \<lparr>err_Code = ''auth_failed'', err_Message = ''invalid token'',
                          err_RetryAfterSeconds = 5\<rparr>"
    by (simp add: first_reply_def peer_def error_frame_def tree_lib_def f64_exact_int_def
          int64_range_def or_zero_def)
  have v: "first_reply tree_lib (welcome_read (peer command_frame)) = ProtocolViolation"
    by (simp add: first_reply_def peer_def command_frame_def tree_lib_def)
  show ?thesis
    using Connect_outcome [where env = "peer welcome_frame" and lib = tree_lib, OF h]
          Connect_outcome [where env = "peer (error_frame 5)" and lib = tree_lib, OF h]
          Connect_outcome [where env = "peer command_frame" and lib = tree_lib, OF h]
    by (simp add: w e v)
qed

text \<open>
  C2 as stated fails: two rejections that differ only in the retry hint make \<open>Connect\<close>
  return the same error and leave the same client, so the failure does not carry the hint.
\<close>

theorem retry_hint_dropped_counterexample:
  "first_reply tree_lib (Inr (error_frame 5))
     = Rejection \<lparr>err_Code = ''auth_failed'', err_Message = ''invalid token'',
                  err_RetryAfterSeconds = 5\<rparr>
   \<and> first_reply tree_lib (Inr (error_frame 60))
     = Rejection \<lparr>err_Code = ''auth_failed'', err_Message = ''invalid token'',
                  err_RetryAfterSeconds = 60\<rparr>
   \<and> Client_Connect tree_lib (peer (error_frame 5)) (NewClient test_config)
     = Client_Connect tree_lib (peer (error_frame 60)) (NewClient test_config)"
  by code_simp

text \<open>A handshake that the server rejects.\<close>

theorem failed_handshake_reports_connected_witness:
  "\<exists>e c'. Client_Connect tree_lib (peer (error_frame 5)) (NewClient test_config) = Return (Some e, c')
     \<and> IsConnected c' \<and> (\<exists>k. conn c' = Some k \<and> conn_closed k)"
proof -
  have "case Client_Connect tree_lib (peer (error_frame 5)) (NewClient test_config) of
          Return (Some e, c') \<Rightarrow> True | _ \<Rightarrow> False"
    by code_simp
  then obtain e c' where r: "Client_Connect tree_lib (peer (error_frame 5)) (NewClient test_config)
      = Return (Some e, c')"
    by (auto split: ret.splits prod.splits option.splits)
  have h: "\<not> closed (NewClient test_config :: jvalue Client)" "dial (peer (error_frame 5)) = None"
    by (simp_all add: NewClient_def peer_def)
  show ?thesis using failed_handshake_reports_connected [OF h r] r by blast
qed



subsection \<open>Claims about the connection manager\<close>


lemma changes_snoc:
  "changes s (xs @ [x]) = changes s xs @ (if x \<noteq> last (s # xs) then [x] else [])"
  by (induction xs arbitrary: s) auto

lemma notify_ok_setState: "notify_ok m \<Longrightarrow> notify_ok (setState s m)"
  by (auto simp add: notify_ok_def setState_def Let_def mlog_def changes_snoc)

lemma state_setState [simp]: "state (setState s m) = s"
  by (simp add: setState_def Let_def mlog_def)

lemma notify_ok_mlog [simp]: "notify_ok (mlog l s m) = notify_ok m"
  by (simp add: notify_ok_def mlog_def)

lemma state_mlog [simp]: "state (mlog l s m) = state m"
  by (simp add: mlog_def)

lemma notify_ok_cleanup:
  "notify_ok m \<Longrightarrow> state m = StateDisconnected \<Longrightarrow> notify_ok (cleanup m)"
  by (auto simp add: notify_ok_def cleanup_def Let_def changes_snoc split: option.splits)

lemma state_cleanup [simp]: "state (cleanup m) = StateDisconnected"
  by (simp add: cleanup_def Let_def split: option.splits)

lemma notify_ok_upd [simp]:
  "notify_ok (m\<lparr>client := x\<rparr>) = notify_ok m"
  "notify_ok (m\<lparr>mbackoff := b\<rparr>) = notify_ok m"
  "notify_ok (m\<lparr>stoppedCh := y\<rparr>) = notify_ok m"
  "notify_ok (m\<lparr>client := x, delivered := z\<rparr>) = notify_ok m"
  by (simp_all add: notify_ok_def)

lemma Client_Connect_not_Blocked: "Client_Connect lib env c \<noteq> Blocked"
  by (simp add: Client_Connect_def Let_def split: option.splits prod.splits)

lemma Manager_connect_cases:
  "(\<exists>p. Manager_connect lib env m = Panic p)
   \<or> (\<exists>e. Manager_connect lib env m = Return (Some e, m))
   \<or> (\<exists>c. Manager_connect lib env m = Return (None, m\<lparr>client := Some c\<rparr>)
          \<and> Client_Connect lib env (NewClient (mconfig m)) = Return (None, c))"
  using Client_Connect_not_Blocked [of lib env "NewClient (mconfig m)"]
  by (auto simp add: Manager_connect_def split: ret.splits prod.splits option.splits)


lemma setState_fields [simp]:
  "assigned (setState s m) = assigned m @ [s]"
  "onStateChange (setState s m) = onStateChange m"
  "stopCh (setState s m) = stopCh m"
  "stoppedCh (setState s m) = stoppedCh m"
  "mconfig (setState s m) = mconfig m"
  "client (setState s m) = client m"
  "mbackoff (setState s m) = mbackoff m"
  by (simp_all add: setState_def Let_def mlog_def)

lemma mlog_fields [simp]:
  "assigned (mlog l s m) = assigned m"
  "onStateChange (mlog l s m) = onStateChange m"
  "stopCh (mlog l s m) = stopCh m"
  "stoppedCh (mlog l s m) = stoppedCh m"
  "mconfig (mlog l s m) = mconfig m"
  "client (mlog l s m) = client m"
  "mbackoff (mlog l s m) = mbackoff m"
  "notified (mlog l s m) = notified m"
  "metricsHandler (mlog l s m) = metricsHandler m"
  by (simp_all add: mlog_def)

lemma cleanup_fields [simp]:
  "assigned (cleanup m) = assigned m @ [StateDisconnected]"
  "onStateChange (cleanup m) = onStateChange m"
  "stopCh (cleanup m) = stopCh m"
  "stoppedCh (cleanup m) = stoppedCh m"
  "mconfig (cleanup m) = mconfig m"
  "client (cleanup m) = None"
  by (simp_all add: cleanup_def Let_def split: option.splits)

lemma runConnected_step_frame:
  assumes "runConnected_step lib ctx mt m c ev = Continue m'
           \<or> runConnected_step lib ctx mt m c ev = Exit r m'"
  shows "state m' = state m \<and> assigned m' = assigned m \<and> notified m' = notified m
         \<and> onStateChange m' = onStateChange m \<and> stopCh m' = stopCh m
         \<and> stoppedCh m' = stoppedCh m \<and> mconfig m' = mconfig m"
  using assms
  by (cases ev)
     (auto simp add: runConnected_step_def mlog_def
           split: if_splits option.splits prod.splits)

lemma notify_ok_cong:
  "state m' = state m \<Longrightarrow> assigned m' = assigned m \<Longrightarrow> notified m' = notified m
   \<Longrightarrow> onStateChange m' = onStateChange m \<Longrightarrow> notify_ok m' = notify_ok m"
  by (simp add: notify_ok_def)

lemma evolves_refl [simp]: "evolves w w"
  by (simp add: evolves_def)

lemma evolves_trans: "evolves w w1 \<Longrightarrow> evolves w1 w2 \<Longrightarrow> evolves w w2"
  by (auto simp add: evolves_def)

lemma evolves_exit_run:
  "evolves w (exit_run w)"
  by (auto simp add: evolves_def exit_run_def world_ok_def)

lemma evolves_finish:
  assumes "state m' = state (manager w)" "assigned m' = assigned (manager w)"
    "notified m' = notified (manager w)" "onStateChange m' = onStateChange (manager w)"
    "stopCh m' = stopCh (manager w)" "mconfig m' = mconfig (manager w)"
  shows "evolves w (finish r m' w)"
proof -
  have "notify_ok m' = notify_ok (manager w)" using assms by (intro notify_ok_cong) simp_all
  then show ?thesis
    using assms by (auto simp add: evolves_def finish_def world_ok_def notify_ok_setState)
qed

lemma evolves_wait_step:
  assumes "loc w = Backoff_wait d \<or> loc w = Pause"
  shows "evolves w (wait_step w ev)"
  using assms
  by (cases ev) (auto simp add: wait_step_def evolves_exit_run, auto simp add: evolves_def world_ok_def)

lemma evolves_manager_upd:
  assumes "state m' = state (manager w)" "assigned m' = assigned (manager w)"
    "notified m' = notified (manager w)" "onStateChange m' = onStateChange (manager w)"
    "stopCh m' = stopCh (manager w)" "mconfig m' = mconfig (manager w)"
  shows "evolves w (w\<lparr>manager := m'\<rparr>)"
proof -
  have "notify_ok m' = notify_ok (manager w)" using assms by (intro notify_ok_cong) simp_all
  then show ?thesis
    using assms by (auto simp add: evolves_def world_ok_def split: loc.splits)
qed

lemma evolves_crash: "evolves w (w\<lparr>loc := Crashed p\<rparr>)"
  by (simp add: evolves_def world_ok_def)

lemma evolves_reader_step: "evolves w (reader_step lib impl rd w)"
  by (auto simp add: reader_step_def evolves_crash intro!: evolves_manager_upd
           split: option.splits ret.splits)

lemma evolves_connected:
  assumes "loc w = Connected_loop mt" "client (manager w) = Some c"
  shows "evolves w (case runConnected_step lib (ctx_done w) mt (manager w) c ev of
                      Continue m' \<Rightarrow> w\<lparr>manager := m'\<rparr>
                    | Exit reason m' \<Rightarrow> finish reason m' w)"
proof (cases "runConnected_step lib (ctx_done w) mt (manager w) c ev")
  case (Continue m')
  then show ?thesis
    using runConnected_step_frame [of lib "ctx_done w" mt "manager w" c ev m']
    by (auto intro!: evolves_manager_upd)
next
  case (Exit r m')
  then show ?thesis
    using runConnected_step_frame [of lib "ctx_done w" mt "manager w" c ev m' r]
    by (auto intro!: evolves_finish)
qed

lemma evolves_top_exit:
  assumes "loc w = Top"
  shows "evolves w (exit_run (w\<lparr>manager := cleanup (mlog l s (manager w))\<rparr>))"
proof -
  have "evolves w (w\<lparr>manager := cleanup (mlog l s (manager w))\<rparr>)"
    using assms by (auto simp add: evolves_def world_ok_def notify_ok_cleanup)
  then show ?thesis using evolves_exit_run by (rule evolves_trans)
qed

lemma evolves_attempt:
  assumes "loc w = Top"
  shows "evolves w (attempt lib impl env w)"
proof -
  let ?m1 = "setState StateConnecting (manager w)"
  have n1: "world_ok w \<Longrightarrow> notify_ok ?m1" by (simp add: world_ok_def notify_ok_setState)
  consider (p) p where "Manager_connect lib env ?m1 = Panic p"
    | (f) e where "Manager_connect lib env ?m1 = Return (Some e, ?m1)"
    | (s) c where "Manager_connect lib env ?m1 = Return (None, ?m1\<lparr>client := Some c\<rparr>)"
    using Manager_connect_cases [of lib env ?m1] by blast
  then show ?thesis
  proof cases
    case p
    then show ?thesis using n1 by (auto simp add: attempt_def Let_def evolves_def world_ok_def)
  next
    case f
    then show ?thesis using n1
      by (auto simp add: attempt_def Let_def evolves_def world_ok_def notify_ok_setState
               split: prod.splits)
  next
    case s
    then show ?thesis using n1
      by (auto simp add: attempt_def Let_def evolves_def world_ok_def notify_ok_setState)
  qed
qed

lemma evolves_top_step:
  assumes "loc w = Top"
  shows "evolves w (top_step lib impl w ev)"
  using assms
  by (cases ev) (simp_all add: top_step_def evolves_top_exit evolves_attempt)

lemma evolves_step: "evolves w (step lib impl w ev)"
proof (cases "loc w")
  case Top
  then show ?thesis
    by (cases ev) (simp_all add: step_def evolves_top_step evolves_reader_step,
                   simp_all add: evolves_def world_ok_def)
next
  case (Backoff_wait d)
  then show ?thesis
    by (cases ev) (simp_all add: step_def evolves_wait_step evolves_reader_step,
                   simp_all add: evolves_def world_ok_def)
next
  case (Connected_loop mt)
  show ?thesis
  proof (cases "client (manager w)")
    case None
    then show ?thesis using Connected_loop
      by (cases ev) (simp_all add: step_def evolves_reader_step,
                     simp_all add: evolves_def world_ok_def)
  next
    case (Some c)
    then show ?thesis using Connected_loop evolves_connected [OF Connected_loop Some, of lib ev]
      by (cases ev) (simp_all add: step_def evolves_reader_step,
                     simp_all add: evolves_def world_ok_def)
  qed
next
  case Pause
  then show ?thesis
    by (cases ev) (simp_all add: step_def evolves_wait_step evolves_reader_step,
                   simp_all add: evolves_def world_ok_def)
next
  case Exited
  then show ?thesis
    by (cases ev) (simp_all add: step_def evolves_reader_step,
                   simp_all add: evolves_def world_ok_def)
next
  case (Crashed p)
  then show ?thesis by (simp add: step_def)
qed

lemma evolves_run: "evolves w (run lib impl w evs)"
proof (induction evs arbitrary: w)
  case Nil
  then show ?case by (simp add: run_def)
next
  case (Cons ev evs)
  have "evolves w (step lib impl w ev)" by (rule evolves_step)
  moreover have "evolves (step lib impl w ev) (run lib impl (step lib impl w ev) evs)"
    by (rule Cons.IH)
  ultimately show ?case unfolding run_def foldl_Cons by (rule evolves_trans)
qed


lemma world_ok_Start:
  "world_ok (Start cancelled ((NewManager cfg)\<lparr>onStateChange := h1, onCommand := h2, metricsHandler := h3\<rparr>))"
  by (simp add: world_ok_def notify_ok_def Start_def NewManager_def Let_def)

lemma attempt_success_assigned:
  assumes "Client_Connect lib env (NewClient (mconfig (manager w))) = Return (None, c)"
  shows "prefix (assigned (manager w) @ [StateConnecting, StateConnected])
                (assigned (manager (attempt lib impl env w)))"
  using assms
  by (simp add: attempt_def Manager_connect_def Let_def finish_def)

lemma changes_two:
  "changes StateDisconnected (StateConnecting # StateConnected # xs)
     = StateConnecting # StateConnected # changes StateConnected xs"
  by simp

text \<open>
  C9. A manager as \<open>NewManager\<close> makes it, with any handlers registered, starts in
  Disconnected. In every run whose first attempt succeeds, the first two stores into the
  state are Connecting and Connected; at every point of the run the observer, when
  one is registered, has been called with exactly the stored values that differed from
  the state they replaced, once each and in order, so that its first two calls are
  Connecting and Connected.
\<close>

theorem state_transitions:
  assumes ok: "Client_Connect lib env (NewClient (WithDefaults cfg)) = Return (None, c1)"
    and m0: "m0 = (NewManager cfg)\<lparr>onStateChange := h1, onCommand := h2, metricsHandler := h3\<rparr>"
    and m: "m = manager (run lib impl (Start False m0) (Attempt env # evs))"
  shows "state m0 = StateDisconnected
         \<and> take 2 (assigned m) = [StateConnecting, StateConnected]
         \<and> notified m = (if h1 then changes StateDisconnected (assigned m) else [])
         \<and> (h1 \<longrightarrow> take 2 (notified m) = [StateConnecting, StateConnected])"
proof -
  let ?w0 = "Start False m0"
  let ?w1 = "attempt lib impl env ?w0"
  have w0: "world_ok ?w0" unfolding m0 by (rule world_ok_Start)
  have cfg: "mconfig (manager ?w0) = WithDefaults cfg"
    by (simp add: m0 Start_def NewManager_def Let_def)
  have s1: "step lib impl ?w0 (Attempt env) = ?w1"
    by (simp add: step_def top_step_def Start_def m0 NewManager_def Let_def)
  have p1: "prefix (assigned (manager ?w0) @ [StateConnecting, StateConnected])
                   (assigned (manager ?w1))"
    using ok by (intro attempt_success_assigned [where c = c1]) (simp add: cfg)
  have a0: "assigned (manager ?w0) = []" by (simp add: m0 Start_def NewManager_def Let_def)
  have e01: "evolves ?w0 ?w1" using evolves_step [of ?w0 lib impl "Attempt env"] by (simp add: s1)
  have e1: "evolves ?w1 (run lib impl ?w1 evs)" by (rule evolves_run)
  have mw: "m = manager (run lib impl ?w1 evs)" by (simp add: m run_def s1)
  have e: "evolves ?w0 (run lib impl ?w1 evs)" using e01 e1 by (rule evolves_trans)
  have "prefix [StateConnecting, StateConnected] (assigned m)"
    using p1 e1 by (auto simp add: a0 mw evolves_def intro: prefix_order.trans)
  then obtain rest where A: "assigned m = StateConnecting # StateConnected # rest"
    by (auto simp add: prefix_def)
  have "notify_ok m" using e w0 by (simp add: evolves_def world_ok_def mw)
  moreover have "onStateChange m = h1"
    using e by (simp add: evolves_def mw m0 Start_def)
  ultimately have N: "notified m = (if h1 then changes StateDisconnected (assigned m) else [])"
    by (simp add: notify_ok_def)
  have "state m0 = StateDisconnected" by (simp add: m0 NewManager_def Let_def)
  then show ?thesis using A N by simp
qed

lemma test_config_defaults:
  "Client_Connect tree_lib (peer welcome_frame) (NewClient (WithDefaults test_config))
     = Return (None, connected_client)"
  by code_simp

text \<open>The test manager: a welcome, then a ping that fails.\<close>

theorem state_transitions_witness:
  "take 2 (assigned (manager (run tree_lib amd64_conv (Start False test_manager)
      [Attempt (peer welcome_frame), Pick_ping 5 (Some (External ''broken pipe'')), Pick_timer])))
     = [StateConnecting, StateConnected]
   \<and> take 2 (notified (manager (run tree_lib amd64_conv (Start False test_manager)
      [Attempt (peer welcome_frame), Pick_ping 5 (Some (External ''broken pipe'')), Pick_timer])))
     = [StateConnecting, StateConnected]"
proof -
  have m0: "test_manager = (NewManager test_config)\<lparr>onStateChange := True, onCommand := True,
      metricsHandler := True\<rparr>"
    by (simp add: test_manager_def OnStateChange_def OnCommand_def SetMetricsHandler_def)
  show ?thesis
    using state_transitions [OF test_config_defaults m0 refl, of amd64_conv
      "[Pick_ping 5 (Some (External ''broken pipe'')), Pick_timer]"]
    by blast
qed

lemma step_client_None:
  assumes "client (manager w) = None" "\<not> connects lib (mconfig (manager w)) ev"
  shows "client (manager (step lib impl w ev)) = None"
proof (cases ev)
  case (Attempt env)
  let ?m1 = "setState StateConnecting (manager w)"
  have "\<not> (\<exists>c. Client_Connect lib env (NewClient (mconfig ?m1)) = Return (None, c))"
    using assms(2) by (auto simp add: connects_def Attempt)
  then consider (p) p where "Manager_connect lib env ?m1 = Panic p"
    | (f) e where "Manager_connect lib env ?m1 = Return (Some e, ?m1)"
    using Manager_connect_cases [of lib env ?m1] by blast
  then have "client (manager (attempt lib impl env w)) = None"
    using assms(1) by cases (auto simp add: attempt_def Let_def split: prod.splits)
  then show ?thesis
    using assms(1) by (simp add: step_def top_step_def wait_step_def Attempt split: loc.splits)
next
  case (Reader rd)
  then show ?thesis using assms(1) by (simp add: step_def reader_step_def split: loc.splits)
qed (use assms(1) in \<open>auto simp add: step_def top_step_def wait_step_def exit_run_def
        split: loc.splits\<close>)

lemma run_client_None:
  assumes "client (manager w) = None" "\<not> list_ex (connects lib (mconfig (manager w))) evs"
  shows "client (manager (run lib impl w evs)) = None"
  using assms
proof (induction evs arbitrary: w)
  case Nil
  then show ?case by (simp add: run_def)
next
  case (Cons ev evs)
  have c: "client (manager (step lib impl w ev)) = None"
    using Cons.prems by (intro step_client_None) simp_all
  have "mconfig (manager (step lib impl w ev)) = mconfig (manager w)"
    using evolves_step [of w lib impl ev] by (simp add: evolves_def)
  then have "client (manager (run lib impl (step lib impl w ev) evs)) = None"
    using Cons.prems c by (intro Cons.IH) simp_all
  then show ?case by (simp add: run_def)
qed

text \<open>
  C10. A new manager has no client, \<open>cleanup\<close> leaves none, and as long as no attempt
  succeeds the run loop sets none. While the manager has no client, \<open>ServerID\<close> and
  \<open>SigningPublicKey\<close> return the empty string and \<open>SendCommandResult\<close> returns
  \<open>ErrNotConnected\<close> and leaves the manager as it was.
\<close>

theorem no_live_client:
  assumes "client (manager w) = None"
    and "\<not> list_ex (connects lib (mconfig (manager w))) evs"
    and "m = manager (run lib impl w evs)"
  shows "client m = None \<and> Manager_ServerID m = [] \<and> Manager_SigningPublicKey m = []
         \<and> Manager_SendCommandResult lib wr m result = (Some ErrNotConnected, m)
         \<and> client (NewManager cfg :: 'b Manager) = None
         \<and> client (cleanup m') = None"
proof -
  have "client m = None" using assms by (simp add: run_client_None)
  then show ?thesis
    by (simp add: Manager_ServerID_def Manager_SigningPublicKey_def Manager_SendCommandResult_def
          NewManager_def Let_def)
qed

text \<open>The test manager after a rejection and a reply that is no welcome.\<close>

theorem no_live_client_witness:
  "Manager_ServerID (manager (run tree_lib amd64_conv (Start False test_manager)
      [Attempt (peer (error_frame 5)), Pick_timer, Attempt (peer command_frame)])) = []
   \<and> Manager_SendCommandResult tree_lib None
       (manager (run tree_lib amd64_conv (Start False test_manager)
          [Attempt (peer (error_frame 5)), Pick_timer, Attempt (peer command_frame)]))
       \<lparr>result_CommandID = ''cmd_123'', result_Status = ''success'', result_Result = [],
        result_Error = [], result_DurationMs = 12\<rparr>
     = (Some ErrNotConnected,
        manager (run tree_lib amd64_conv (Start False test_manager)
          [Attempt (peer (error_frame 5)), Pick_timer, Attempt (peer command_frame)]))"
proof -
  have a: "client (manager (Start False test_manager)) = None" by code_simp
  have b: "\<not> list_ex (connects tree_lib (mconfig (manager (Start False test_manager))))
             [Attempt (peer (error_frame 5)), Pick_timer, Attempt (peer command_frame)]"
    by code_simp
  show ?thesis using no_live_client [OF a b refl, of amd64_conv] by blast
qed

lemma stopCh_run: "stopCh (manager (run lib impl w evs)) = stopCh (manager w)"
  using evolves_run [of w lib impl evs] by (simp add: evolves_def)

text \<open>
  C1. A second \<open>Stop\<close> is a no-op. The code does not do this: on a manager on which
  \<open>Stop\<close> has returned, with the run loop as the other task, every further \<open>Stop\<close>
  panics in its first statement, the close of the closed \<open>stopCh\<close>.
\<close>

theorem second_Stop_panics:
  assumes "Manager_Stop (run_on lib impl w evs) (manager w) = Return m1"
  shows "Manager_Stop others m1 = Panic ''close of closed channel''"
proof -
  have "m1 = manager (run lib impl (w\<lparr>manager := (manager w)\<lparr>stopCh := True\<rparr>\<rparr>) evs)"
    using assms by (simp add: Manager_Stop_def run_on_def Let_def split: if_splits)
  then have "stopCh m1" by (simp add: stopCh_run)
  then show ?thesis by (simp add: Manager_Stop_def)
qed

text \<open>\<open>Stop\<close> on the connected test manager, then \<open>Stop\<close> again.\<close>

theorem second_Stop_panics_witness:
  "\<exists>m1. Manager_Stop (run_on tree_lib amd64_conv connected_world [Pick_stop, Pick_stop])
           (manager connected_world) = Return m1
     \<and> Manager_Stop id m1 = Panic ''close of closed channel''"
proof -
  have "case Manager_Stop (run_on tree_lib amd64_conv connected_world [Pick_stop, Pick_stop])
           (manager connected_world) of Return m1 \<Rightarrow> True | _ \<Rightarrow> False"
    by code_simp
  then obtain m1 where r: "Manager_Stop (run_on tree_lib amd64_conv connected_world
      [Pick_stop, Pick_stop]) (manager connected_world) = Return m1"
    by (auto split: ret.splits)
  show ?thesis using second_Stop_panics [OF r] r by blast
qed


lemma Client_Close_closed [simp]: "closed (Client_Close c)"
  by (simp add: Client_Close_def conn_Close_def)










end
